theory Spec2Isabelle
  imports Complex_Main "HOL-Library.Stream"
begin

section \<open>The environment of the throttler\<close>

text \<open>
  The program reads the wall clock (\<^verbatim>\<open>time.time()\<close>), draws random numbers
  (\<^verbatim>\<open>random.random()\<close>), opens the capture driver (\<^verbatim>\<open>pydivert.WinDivert(filter)\<close>),
  sleeps, re-injects packets, prints and logs. The model threads a \<open>world\<close> through every
  function: the answers the environment will give are streams that are consumed one
  reading at a time, and what the program does to the environment is appended to a trace.
  Nothing is assumed about the streams: the clock may stand still between two readings,
  jump, or run backwards, as \<^verbatim>\<open>time.time()\<close> may.

  The trace records the sleeps (\<^verbatim>\<open>time.sleep\<close>), the packets re-injected
  (\<^verbatim>\<open>windivert_handle.send\<close>), the attempts to open the capture driver with their filter,
  the status line printed by \<^verbatim>\<open>_update_status\<close>, and the lines of the final statistics
  report. The other \<^verbatim>\<open>print\<close> and \<^verbatim>\<open>logger\<close> calls of the program are diagnostics that
  no function reads back; they are not recorded.

  Python floats are modelled as \<open>real\<close>, Python integers as \<open>int\<close>.
\<close>

record packet =
  raw :: "char list"

datatype open_result = Opened | Open_raises string

text \<open>
  The exceptions of the program. \<open>WinDivert_error msg\<close> is whatever
  \<^verbatim>\<open>pydivert.WinDivert(filter)\<close> raises on opening, \<open>msg\<close> being \<^verbatim>\<open>str(e)\<close>.
\<close>

datatype error =
    ValueError string
  | RuntimeError string
  | ZeroDivisionError
  | AttributeError
  | NoSuchProcess
  | AccessDenied
  | Other_exception string
  | WinDivert_error string

datatype event =
    Sleep real
  | Send packet
  | Open_capture string
  | Print_status string int int int real
  | Info string
  | Info_num string real string

record world =
  clock :: "real stream"
  rng :: "real stream"
  opens :: "open_result stream"
  trace :: "event list"

definition time_time :: "world \<Rightarrow> real \<times> world" where
  "time_time w = (shd (clock w), w\<lparr>clock := stl (clock w)\<rparr>)"

definition time_sleep :: "real \<Rightarrow> world \<Rightarrow> world" where
  "time_sleep secs w = w\<lparr>trace := trace w @ [Sleep secs]\<rparr>"

definition random_random :: "world \<Rightarrow> real \<times> world" where
  "random_random w = (shd (rng w), w\<lparr>rng := stl (rng w)\<rparr>)"

definition emit :: "event \<Rightarrow> world \<Rightarrow> world" where
  "emit e w = w\<lparr>trace := trace w @ [e]\<rparr>"


section \<open>utils/bandwidth\_limiter.py: class BandwidthLimiter\<close>

text \<open>
  The fields of the class, under their names. \<open>lock\<close> is \<^verbatim>\<open>self._lock\<close>, a
  \<^verbatim>\<open>threading.Lock\<close>: \<open>True\<close> while it is held. The lock is not re-entrant, so a
  method that enters \<^verbatim>\<open>with self._lock\<close> while the lock is held never returns; such a
  call is the value \<open>None\<close>.
\<close>

record limiter =
  max_bytes_per_second :: real
  window_size :: real
  bucket_size :: real
  tokens :: real
  last_refill :: real
  bytes_sent :: int
  window_start :: real
  lock :: bool

text \<open>\<^verbatim>\<open>__init__(self, max_bytes_per_second, window_size=1.0)\<close>\<close>

definition BandwidthLimiter :: "real \<Rightarrow> real \<Rightarrow> world \<Rightarrow> limiter \<times> world" where
  "BandwidthLimiter mbps wsize w =
     (let (t1, w1) = time_time w;
          (t2, w2) = time_time w1
      in (\<lparr>max_bytes_per_second = mbps, window_size = wsize, bucket_size = mbps,
           tokens = mbps, last_refill = t1, bytes_sent = 0, window_start = t2,
           lock = False\<rparr>, w2))"

text \<open>\<^verbatim>\<open>with self._lock: body\<close>\<close>

definition with_lock ::
  "(limiter \<Rightarrow> world \<Rightarrow> 'a \<times> limiter \<times> world) \<Rightarrow> limiter \<Rightarrow> world \<Rightarrow> ('a \<times> limiter \<times> world) option" where
  "with_lock body l w =
     (if lock l then None
      else (let (r, l', w') = body (l\<lparr>lock := True\<rparr>) w
            in Some (r, l'\<lparr>lock := False\<rparr>, w')))"

definition refill_tokens :: "limiter \<Rightarrow> world \<Rightarrow> limiter \<times> world" where
  "refill_tokens l w =
     (let (now, w1) = time_time w;
          elapsed = now - last_refill l
      in if elapsed > 0 then
           (let tokens_to_add = elapsed * max_bytes_per_second l
            in (l\<lparr>tokens := min (bucket_size l) (tokens l + tokens_to_add),
                  last_refill := now\<rparr>, w1))
         else (l, w1))"

definition reset_window_if_needed :: "limiter \<Rightarrow> world \<Rightarrow> limiter \<times> world" where
  "reset_window_if_needed l w =
     (let (now, w1) = time_time w
      in if now - window_start l \<ge> window_size l then
           (l\<lparr>window_start := now, bytes_sent := 0\<rparr>, w1)
         else (l, w1))"

text \<open>The body of \<^verbatim>\<open>throttle\<close>, inside the lock.\<close>

definition throttle_locked :: "int \<Rightarrow> limiter \<Rightarrow> world \<Rightarrow> unit \<times> limiter \<times> world" where
  "throttle_locked packet_size l w =
     (let (l1, w1) = refill_tokens l w;
          (l2, w2) = reset_window_if_needed l1 w1;
          (l3, w3) =
            (if real_of_int (bytes_sent l2 + packet_size) > max_bytes_per_second l2 then
               (let (now, w3) = time_time w2;
                    time_remaining = window_size l2 - (now - window_start l2)
                in if time_remaining > 0 then
                     (let w4 = time_sleep time_remaining w3;
                          (now', w5) = time_time w4
                      in (l2\<lparr>window_start := now', bytes_sent := 0\<rparr>, w5))
                   else (l2, w3))
             else (l2, w2))
      in ((), l3\<lparr>bytes_sent := bytes_sent l3 + packet_size\<rparr>, w3))"

definition throttle :: "int \<Rightarrow> limiter \<Rightarrow> world \<Rightarrow> (unit \<times> limiter \<times> world) option" where
  "throttle packet_size = with_lock (throttle_locked packet_size)"

definition can_send :: "int \<Rightarrow> limiter \<Rightarrow> world \<Rightarrow> (bool \<times> limiter \<times> world) option" where
  "can_send packet_size =
     with_lock (\<lambda>l w. let (l1, w1) = refill_tokens l w
                      in (tokens l1 \<ge> real_of_int packet_size, l1, w1))"

definition get_current_rate_kbps :: "limiter \<Rightarrow> world \<Rightarrow> (real \<times> limiter \<times> world) option" where
  "get_current_rate_kbps =
     with_lock (\<lambda>l w. let (now, w1) = time_time w;
                          elapsed = now - window_start l
                      in if elapsed > 0 then ((real_of_int (bytes_sent l) / elapsed) / 1024, l, w1)
                         else (0, l, w1))"

definition get_current_rate_mbps :: "limiter \<Rightarrow> world \<Rightarrow> (real \<times> limiter \<times> world) option" where
  "get_current_rate_mbps l w =
     (case get_current_rate_kbps l w of
        None \<Rightarrow> None
      | Some (kbps, l1, w1) \<Rightarrow> Some ((kbps * 8) / 1024, l1, w1))"

definition update_rate_limit :: "real \<Rightarrow> limiter \<Rightarrow> world \<Rightarrow> (unit \<times> limiter \<times> world) option" where
  "update_rate_limit new_max_bytes_per_second =
     with_lock (\<lambda>l w.
       let l1 = l\<lparr>max_bytes_per_second := new_max_bytes_per_second,
                  bucket_size := new_max_bytes_per_second\<rparr>;
           l2 = (if tokens l1 > bucket_size l1 then l1\<lparr>tokens := bucket_size l1\<rparr> else l1)
       in ((), l2, w))"

definition reset :: "limiter \<Rightarrow> world \<Rightarrow> (unit \<times> limiter \<times> world) option" where
  "reset =
     with_lock (\<lambda>l w.
       let l1 = l\<lparr>tokens := bucket_size l\<rparr>;
           (t1, w1) = time_time w;
           l2 = l1\<lparr>last_refill := t1, bytes_sent := 0\<rparr>;
           (t2, w2) = time_time w1
       in ((), l2\<lparr>window_start := t2\<rparr>, w2))"

text \<open>
  \<^verbatim>\<open>get_stats\<close> builds its dictionary inside \<^verbatim>\<open>with self._lock\<close> and calls
  \<^verbatim>\<open>self.get_current_rate_kbps()\<close> there, which enters the same lock.
  The dictionary is modelled by the record \<open>limiter_stats\<close>; the division by
  \<^verbatim>\<open>self.max_bytes_per_second\<close> raises ZeroDivisionError at zero.
\<close>

record limiter_stats =
  ls_max_bytes_per_second :: real
  ls_current_tokens :: real
  ls_bytes_sent_in_window :: int
  ls_current_rate_kbps :: real
  ls_current_rate_mbps :: real
  ls_window_utilization :: real

definition get_stats :: "limiter \<Rightarrow> world \<Rightarrow> ((error + limiter_stats) \<times> limiter \<times> world) option" where
  "get_stats l w =
     (if lock l then None
      else
        (case get_current_rate_kbps (l\<lparr>lock := True\<rparr>) w of
           None \<Rightarrow> None
         | Some (kbps, l1, w1) \<Rightarrow>
             (case get_current_rate_mbps l1 w1 of
                None \<Rightarrow> None
              | Some (mbps, l2, w2) \<Rightarrow>
                  if max_bytes_per_second l2 = 0 then Some (Inl ZeroDivisionError, l2\<lparr>lock := False\<rparr>, w2)
                  else Some (Inr \<lparr>ls_max_bytes_per_second = max_bytes_per_second l2,
                                  ls_current_tokens = tokens l2,
                                  ls_bytes_sent_in_window = bytes_sent l2,
                                  ls_current_rate_kbps = kbps,
                                  ls_current_rate_mbps = mbps,
                                  ls_window_utilization =
                                    real_of_int (bytes_sent l2) / max_bytes_per_second l2\<rparr>,
                             l2\<lparr>lock := False\<rparr>, w2))))"

text \<open>
  A caller of the class: one call of a public method. \<open>apply_op\<close> performs the call and
  forgets the returned value; \<open>run_ops\<close> performs a sequence of calls, and is \<open>None\<close>
  when one of them never returns.
\<close>

datatype limiter_op =
    Throttle int
  | Can_send int
  | Get_current_rate_kbps
  | Get_current_rate_mbps
  | Update_rate_limit real
  | Reset
  | Get_stats

fun is_update :: "limiter_op \<Rightarrow> bool" where
  "is_update (Update_rate_limit c) = True"
| "is_update _ = False"

definition forget :: "('a \<times> limiter \<times> world) option \<Rightarrow> (limiter \<times> world) option" where
  "forget r = (case r of None \<Rightarrow> None | Some (x, l, w) \<Rightarrow> Some (l, w))"

fun apply_op :: "limiter_op \<Rightarrow> limiter \<Rightarrow> world \<Rightarrow> (limiter \<times> world) option" where
  "apply_op (Throttle n) l w = forget (throttle n l w)"
| "apply_op (Can_send n) l w = forget (can_send n l w)"
| "apply_op Get_current_rate_kbps l w = forget (get_current_rate_kbps l w)"
| "apply_op Get_current_rate_mbps l w = forget (get_current_rate_mbps l w)"
| "apply_op (Update_rate_limit c) l w = forget (update_rate_limit c l w)"
| "apply_op Reset l w = forget (reset l w)"
| "apply_op Get_stats l w = forget (get_stats l w)"

fun run_ops :: "limiter_op list \<Rightarrow> limiter \<Rightarrow> world \<Rightarrow> (limiter \<times> world) option" where
  "run_ops [] l w = Some (l, w)"
| "run_ops (x # xs) l w =
     (case apply_op x l w of None \<Rightarrow> None | Some (l', w') \<Rightarrow> run_ops xs l' w')"


section \<open>config/settings.py: class ThrottlingConfig\<close>

record config =
  target_bandwidth_mbps :: real
  lag_delay_ms :: int
  packet_drop_rate :: real
  process_name_substring :: string
  toggle_key :: string
  exit_key :: string
  status_update_interval :: int
  port_range_start :: int
  port_range_end :: int

text \<open>
  \<^verbatim>\<open>_validate_settings\<close>, run by \<^verbatim>\<open>__post_init__\<close>: a \<^verbatim>\<open>ThrottlingConfig\<close> is only
  ever constructed when it returns normally.
\<close>

definition validate_settings :: "config \<Rightarrow> error + unit" where
  "validate_settings c =
     (if target_bandwidth_mbps c \<le> 0 then Inl (ValueError ''Target bandwidth must be positive'')
      else if lag_delay_ms c < 0 then Inl (ValueError ''Lag delay cannot be negative'')
      else if \<not> (0 \<le> packet_drop_rate c \<and> packet_drop_rate c \<le> 1)
        then Inl (ValueError ''Packet drop rate must be between 0 and 1'')
      else if status_update_interval c \<le> 0
        then Inl (ValueError ''Status update interval must be positive'')
      else if port_range_start c \<ge> port_range_end c
        then Inl (ValueError ''Port range start must be less than end'')
      else Inr ())"

text \<open>The defaults of the dataclass: \<^verbatim>\<open>ThrottlingConfig()\<close>.\<close>

definition default_config :: config where
  "default_config =
     \<lparr>target_bandwidth_mbps = 2, lag_delay_ms = 10, packet_drop_rate = 0,
      process_name_substring = ''Your-process-here'', toggle_key = ''f1'', exit_key = ''esc'',
      status_update_interval = 100, port_range_start = 49000, port_range_end = 65000\<rparr>"

text \<open>The property \<^verbatim>\<open>max_bytes_per_second\<close> of the configuration.\<close>

definition config_max_bytes_per_second :: "config \<Rightarrow> real" where
  "config_max_bytes_per_second c = target_bandwidth_mbps c * 1000000 / 8"

definition lag_delay_seconds :: "config \<Rightarrow> real" where
  "lag_delay_seconds c = real_of_int (lag_delay_ms c) / 1000"


section \<open>utils/statistics.py: class ThrottlingStatistics\<close>

record throttling_statistics =
  processed_packets :: int
  throttled_packets :: int
  dropped_packets :: int
  start_time :: real

text \<open>
  A fresh object. The default of \<^verbatim>\<open>start_time\<close> is the value \<^verbatim>\<open>time.time()\<close> had when the
  class was defined; it is a parameter here.
\<close>

definition ThrottlingStatistics :: "real \<Rightarrow> throttling_statistics" where
  "ThrottlingStatistics t0 =
     \<lparr>processed_packets = 0, throttled_packets = 0, dropped_packets = 0, start_time = t0\<rparr>"

definition increment_processed :: "throttling_statistics \<Rightarrow> throttling_statistics" where
  "increment_processed s = s\<lparr>processed_packets := processed_packets s + 1\<rparr>"

definition increment_throttled :: "throttling_statistics \<Rightarrow> throttling_statistics" where
  "increment_throttled s = s\<lparr>throttled_packets := throttled_packets s + 1\<rparr>"

definition increment_dropped :: "throttling_statistics \<Rightarrow> throttling_statistics" where
  "increment_dropped s = s\<lparr>dropped_packets := dropped_packets s + 1\<rparr>"

text \<open>The dictionary of \<^verbatim>\<open>ThrottlingStatistics.get_stats\<close>.\<close>

record stats_dict =
  sd_processed_packets :: int
  sd_throttled_packets :: int
  sd_dropped_packets :: int
  sd_packets_per_second :: real
  sd_runtime_seconds :: real

definition statistics_get_stats :: "throttling_statistics \<Rightarrow> world \<Rightarrow> stats_dict \<times> world" where
  "statistics_get_stats s w =
     (let (now, w1) = time_time w;
          elapsed = now - start_time s
      in (\<lparr>sd_processed_packets = processed_packets s,
           sd_throttled_packets = throttled_packets s,
           sd_dropped_packets = dropped_packets s,
           sd_packets_per_second =
             (if elapsed > 0 then real_of_int (processed_packets s) / elapsed else 0),
           sd_runtime_seconds = elapsed\<rparr>, w1))"

text \<open>
  Decimal rendering of integers, as an f-string does it. Floats are not rendered: a log
  line that formats one carries the number itself (\<open>Info_num prefix x suffix\<close>).
\<close>

function str_nat :: "nat \<Rightarrow> string" where
  "str_nat n =
     (if n < 10 then [''0123456789'' ! n]
      else str_nat (n div 10) @ [''0123456789'' ! (n mod 10)])"
  by pat_completeness auto
termination
  by (relation "measure id") auto

declare str_nat.simps [simp del]

definition str_int :: "int \<Rightarrow> string" where
  "str_int i = (if i < 0 then CHR ''-'' # str_nat (nat (- i)) else str_nat (nat i))"

text \<open>
  \<^verbatim>\<open>log_final_stats\<close>: the final statistics report, six lines at level INFO, the first
  of them the heading.
\<close>

definition log_final_stats :: "throttling_statistics \<Rightarrow> world \<Rightarrow> world" where
  "log_final_stats s w =
     (let (stats, w1) = statistics_get_stats s w;
          w2 = emit (Info ''Final Statistics:'') w1;
          w3 = emit (Info (''Total packets processed: '' @ str_int (sd_processed_packets stats))) w2;
          w4 = emit (Info (''Total packets throttled: '' @ str_int (sd_throttled_packets stats))) w3;
          w5 = emit (Info (''Total packets dropped: '' @ str_int (sd_dropped_packets stats))) w4;
          w6 = emit (Info_num ''Average packets/second: '' (sd_packets_per_second stats) '''') w5
      in emit (Info_num ''Total runtime: '' (sd_runtime_seconds stats) '' seconds'') w6)"


section \<open>utils/keyboard\_handler.py: class KeyboardHandler\<close>

text \<open>
  The callbacks the throttler registers are its bound methods \<^verbatim>\<open>toggle_throttling\<close> and
  \<^verbatim>\<open>shutdown\<close>. \<open>thread\<close> tells whether \<^verbatim>\<open>self._thread\<close> is set. A method runs either on
  the main thread or on the listener thread (a callback does).
\<close>

datatype callback = Toggle_throttling | Shutdown

datatype thread_id = Main_thread | Listener_thread

record keyboard_handler =
  callbacks :: "string \<rightharpoonup> callback"
  running :: bool
  thread :: bool

definition KeyboardHandler :: keyboard_handler where
  "KeyboardHandler = \<lparr>callbacks = Map.empty, running = False, thread = False\<rparr>"

definition register_callback :: "string \<Rightarrow> callback \<Rightarrow> keyboard_handler \<Rightarrow> keyboard_handler" where
  "register_callback key cb kh = kh\<lparr>callbacks := (callbacks kh)(key \<mapsto> cb)\<rparr>"

definition start :: "keyboard_handler \<Rightarrow> keyboard_handler" where
  "start kh = kh\<lparr>running := True, thread := True\<rparr>"

text \<open>
  \<^verbatim>\<open>stop\<close>: \<^verbatim>\<open>self._thread.join(timeout=1.0)\<close> raises RuntimeError when the calling thread
  is the listener thread itself.
\<close>

definition stop :: "thread_id \<Rightarrow> keyboard_handler \<Rightarrow> error option \<times> keyboard_handler" where
  "stop caller kh =
     (let kh1 = kh\<lparr>running := False\<rparr>
      in if thread kh1 \<and> caller = Listener_thread
         then (Some (RuntimeError ''cannot join current thread''), kh1)
         else (None, kh1))"


section \<open>utils/process\_manager.py: class ProcessManager\<close>

text \<open>
  Strings are the UTF-8 bytes of the Python strings: \<^verbatim>\<open>s.startswith(p)\<close>, the substring
  test \<^verbatim>\<open>needle in haystack\<close>, and \<^verbatim>\<open>sep.join(parts)\<close>.

  \<^verbatim>\<open>str.lower()\<close> folds every cased letter of Unicode, by tables of the interpreter that are
  not part of the program: it is a parameter, \<open>str_lower\<close>, of the functions that call it.
  \<open>ascii_lower\<close> is what it does to a string of ASCII characters.
\<close>

definition ascii_lower_char :: "char \<Rightarrow> char" where
  "ascii_lower_char c =
     (case map_of (zip ''ABCDEFGHIJKLMNOPQRSTUVWXYZ'' ''abcdefghijklmnopqrstuvwxyz'') c of
        Some d \<Rightarrow> d
      | None \<Rightarrow> c)"

definition ascii_lower :: "string \<Rightarrow> string" where
  "ascii_lower s = map ascii_lower_char s"

fun startswith :: "string \<Rightarrow> string \<Rightarrow> bool" where
  "startswith s [] = True"
| "startswith [] (p # ps) = False"
| "startswith (c # cs) (p # ps) = (c = p \<and> startswith cs ps)"

fun contains :: "string \<Rightarrow> string \<Rightarrow> bool" where
  "contains needle [] = (needle = [])"
| "contains needle (c # cs) = (startswith (c # cs) needle \<or> contains needle cs)"

fun join :: "string \<Rightarrow> string list \<Rightarrow> string" where
  "join sep [] = []"
| "join sep [x] = x"
| "join sep (x # y # ys) = x @ sep @ join sep (y # ys)"

text \<open>
  What \<^verbatim>\<open>psutil\<close> answers. \<^verbatim>\<open>psutil.process_iter(['pid', 'name'])\<close> is a list of
  entries: the \<^verbatim>\<open>info\<close> of a process (its name is \<^verbatim>\<open>None\<close> when it could not be read),
  or an exception raised on reading it. \<^verbatim>\<open>psutil.Process(pid).net_connections()\<close> is a
  function of the process id: the connections, or the exception raised.
\<close>

datatype proc_entry = Proc_info int "string option" | Proc_raises error

record addr =
  ip :: string
  port :: nat

record conn =
  laddr :: "addr option"
  raddr :: "addr option"

type_synonym psutil_connections = "int \<Rightarrow> error + conn list"

fun find_process_by_name ::
  "(string \<Rightarrow> string) \<Rightarrow> proc_entry list \<Rightarrow> string \<Rightarrow> error + int" where
  "find_process_by_name str_lower [] name_substring =
     Inl (RuntimeError (''No process matching '' @ [CHR 0x27] @ name_substring @ [CHR 0x27] @ '' found''))"
| "find_process_by_name str_lower (Proc_info pid None # ps) name_substring = Inl AttributeError"
| "find_process_by_name str_lower (Proc_info pid (Some name) # ps) name_substring =
     (if contains (str_lower name_substring) (str_lower name) then Inr pid
      else find_process_by_name str_lower ps name_substring)"
| "find_process_by_name str_lower (Proc_raises e # ps) name_substring =
     (if e = NoSuchProcess \<or> e = AccessDenied
      then find_process_by_name str_lower ps name_substring
      else Inl e)"

text \<open>
  \<^verbatim>\<open>get_process_ports\<close> returns a Python \<^verbatim>\<open>set\<close> of ports: a set. \<open>add_conn\<close> is the body
  of the loop over the connections, \<^verbatim>\<open>ports.add(conn.laddr.port)\<close> and
  \<^verbatim>\<open>ports.add(conn.raddr.port)\<close>.
\<close>

definition add_conn :: "nat set \<Rightarrow> conn \<Rightarrow> nat set" where
  "add_conn ports c =
     (let ports1 = (case laddr c of Some a \<Rightarrow> insert (port a) ports | None \<Rightarrow> ports)
      in case raddr c of Some a \<Rightarrow> insert (port a) ports1 | None \<Rightarrow> ports1)"

definition get_process_ports :: "psutil_connections \<Rightarrow> int \<Rightarrow> nat set" where
  "get_process_ports psutil pid =
     (case psutil pid of
        Inr connections \<Rightarrow> foldl add_conn {} connections
      | Inl NoSuchProcess \<Rightarrow> {}
      | Inl AccessDenied \<Rightarrow> {}
      | Inl e \<Rightarrow> {})"


section \<open>core/throttler.py: class NetworkThrottler\<close>

text \<open>
  The fields of the class. \<open>target_ports\<close> is \<^verbatim>\<open>self._target_ports\<close>, a Python \<^verbatim>\<open>set\<close>,
  held as the list of its elements, without repetition, in the order in which the set is
  iterated (\<^verbatim>\<open>for p in self._target_ports\<close>, \<^verbatim>\<open>list(self._target_ports)\<close>). That order
  is an artefact of the interpreter's hash table: where a set is stored in the field, the
  order is given by a parameter, \<open>iter_order\<close>.
\<close>

record throttler =
  config :: config
  bandwidth_limiter :: limiter
  statistics :: throttling_statistics
  keyboard_handler :: keyboard_handler
  throttling_enabled :: bool
  shutdown_event :: bool
  target_pid :: "int option"
  target_ports :: "nat list"

text \<open>
  \<^verbatim>\<open>__init__(self, config)\<close>; \<open>t0\<close> is the default start time of the statistics.
  \<^verbatim>\<open>self._throttling_lock\<close> guards single reads and writes of \<open>throttling_enabled\<close> and
  is never held across a call, so it is left out; \<open>shutdown_event\<close> is the state of the
  \<^verbatim>\<open>threading.Event\<close>.
\<close>

definition NetworkThrottler :: "config \<Rightarrow> real \<Rightarrow> world \<Rightarrow> throttler \<times> world" where
  "NetworkThrottler cfg t0 w =
     (let (l, w1) = BandwidthLimiter (config_max_bytes_per_second cfg) 1 w
      in (\<lparr>config = cfg, bandwidth_limiter = l, statistics = ThrottlingStatistics t0,
           keyboard_handler = KeyboardHandler, throttling_enabled = False,
           shutdown_event = False, target_pid = None, target_ports = []\<rparr>, w1))"

definition toggle_throttling :: "throttler \<Rightarrow> throttler" where
  "toggle_throttling th = th\<lparr>throttling_enabled := \<not> throttling_enabled th\<rparr>"

definition shutdown :: "thread_id \<Rightarrow> throttler \<Rightarrow> world \<Rightarrow> error option \<times> throttler \<times> world" where
  "shutdown caller th w =
     (let th1 = th\<lparr>shutdown_event := True\<rparr>;
          (r, kh) = stop caller (keyboard_handler th1);
          th2 = th1\<lparr>keyboard_handler := kh\<rparr>
      in case r of
           Some e \<Rightarrow> (Some e, th2, w)
         | None \<Rightarrow> (None, th2, log_final_stats (statistics th2) w))"

definition initialize_target_process ::
  "(string \<Rightarrow> string) \<Rightarrow> (nat set \<Rightarrow> nat list) \<Rightarrow> proc_entry list \<Rightarrow> psutil_connections
     \<Rightarrow> throttler \<Rightarrow> error option \<times> throttler" where
  "initialize_target_process str_lower iter_order procs psutil th =
     (case find_process_by_name str_lower procs (process_name_substring (config th)) of
        Inl e \<Rightarrow> (Some e, th)
      | Inr pid \<Rightarrow>
          (None, th\<lparr>target_pid := Some pid,
                    target_ports := iter_order (get_process_ports psutil pid)\<rparr>))"

definition setup_keyboard_handler :: "throttler \<Rightarrow> throttler" where
  "setup_keyboard_handler th =
     (let kh1 = register_callback (toggle_key (config th)) Toggle_throttling (keyboard_handler th);
          kh2 = register_callback (exit_key (config th)) Shutdown kh1
      in th\<lparr>keyboard_handler := start kh2\<rparr>)"

definition should_drop_packet :: "throttler \<Rightarrow> world \<Rightarrow> bool \<times> world" where
  "should_drop_packet th w =
     (let (r, w1) = random_random w in (r < packet_drop_rate (config th), w1))"

definition apply_throttling :: "int \<Rightarrow> throttler \<Rightarrow> world \<Rightarrow> (throttler \<times> world) option" where
  "apply_throttling packet_size th w =
     (case throttle packet_size (bandwidth_limiter th) w of
        None \<Rightarrow> None
      | Some (u, l1, w1) \<Rightarrow>
          Some (th\<lparr>bandwidth_limiter := l1\<rparr>,
                if lag_delay_ms (config th) > 0
                then time_sleep (lag_delay_seconds (config th)) w1 else w1))"

definition update_status ::
  "bool \<Rightarrow> throttler \<Rightarrow> world \<Rightarrow> (error option \<times> throttler \<times> world) option" where
  "update_status throttling_active th w =
     (if status_update_interval (config th) = 0 then Some (Some ZeroDivisionError, th, w)
      else if processed_packets (statistics th) mod status_update_interval (config th) = 0 then
        (let status = (if throttling_active then ''THROTTLING'' else ''NORMAL'')
         in case get_current_rate_kbps (bandwidth_limiter th) w of
              None \<Rightarrow> None
            | Some (current_rate, l1, w1) \<Rightarrow>
                Some (None, th\<lparr>bandwidth_limiter := l1\<rparr>,
                      emit (Print_status status (processed_packets (statistics th))
                              (throttled_packets (statistics th))
                              (dropped_packets (statistics th)) current_rate) w1))
      else Some (None, th, w))"

text \<open>
  The end of \<^verbatim>\<open>_process_packet\<close>, reached by every packet that is not dropped:
  \<^verbatim>\<open>windivert_handle.send(packet)\<close>, then \<^verbatim>\<open>self._update_status(should_throttle)\<close>.
\<close>

definition forward ::
  "packet \<Rightarrow> bool \<Rightarrow> throttler \<Rightarrow> world \<Rightarrow> (error option \<times> throttler \<times> world) option" where
  "forward pkt should_throttle th w = update_status should_throttle th (emit (Send pkt) w)"

definition process_packet ::
  "packet \<Rightarrow> throttler \<Rightarrow> world \<Rightarrow> (error option \<times> throttler \<times> world) option" where
  "process_packet pkt th w =
     (let packet_size = int (length (raw pkt));
          th1 = th\<lparr>statistics := increment_processed (statistics th)\<rparr>;
          should_throttle = throttling_enabled th1
      in if should_throttle then
           (let th2 = th1\<lparr>statistics := increment_throttled (statistics th1)\<rparr>;
                (drop, w1) = should_drop_packet th2 w
            in if drop then
                 Some (None, th2\<lparr>statistics := increment_dropped (statistics th2)\<rparr>, w1)
               else
                 (case apply_throttling packet_size th2 w1 of
                    None \<Rightarrow> None
                  | Some (th3, w2) \<Rightarrow> forward pkt should_throttle th3 w2))
         else forward pkt should_throttle th1 w)"

text \<open>
  One event handled by the listener thread (\<^verbatim>\<open>_keyboard_listener\<close>): a key-down event of
  the given name calls the callback registered for it; an exception of the callback is
  caught. The loop of the listener tests \<^verbatim>\<open>self._running\<close> only before it waits for an
  event, so an event can still arrive after \<^verbatim>\<open>stop\<close>: the model lets every event through
  once the thread exists.
\<close>

definition keyboard_listener :: "string \<Rightarrow> throttler \<Rightarrow> world \<Rightarrow> throttler \<times> world" where
  "keyboard_listener name th w =
     (if \<not> thread (keyboard_handler th) then (th, w)
      else
        (case callbacks (keyboard_handler th) name of
           None \<Rightarrow> (th, w)
         | Some Toggle_throttling \<Rightarrow> (toggle_throttling th, w)
         | Some Shutdown \<Rightarrow> (let (e, th1, w1) = shutdown Listener_thread th w in (th1, w1))))"

text \<open>
  The loop of \<^verbatim>\<open>run\<close> over the packets of the capture handle, with the key events of
  the listener thread interleaved between packets:
  \<^verbatim>\<open>for packet in windivert_handle: if self._shutdown_event.is_set(): break; self._process_packet(...)\<close>.
\<close>

datatype loop_event = Captured packet | Key_down string

fun capture_loop ::
  "loop_event list \<Rightarrow> throttler \<Rightarrow> world \<Rightarrow> (error option \<times> throttler \<times> world) option" where
  "capture_loop [] th w = Some (None, th, w)"
| "capture_loop (Key_down k # es) th w =
     (let (th1, w1) = keyboard_listener k th w in capture_loop es th1 w1)"
| "capture_loop (Captured p # es) th w =
     (if shutdown_event th then Some (None, th, w)
      else
        (case process_packet p th w of
           None \<Rightarrow> None
         | Some (Some e, th1, w1) \<Rightarrow> Some (Some e, th1, w1)
         | Some (None, th1, w1) \<Rightarrow> capture_loop es th1 w1))"


subsection \<open>The capture filter: \<^verbatim>\<open>_packet_capture_context\<close>\<close>

definition port_condition :: "nat \<Rightarrow> string" where
  "port_condition p =
     ''tcp.SrcPort == '' @ str_nat p @ '' or tcp.DstPort == '' @ str_nat p @
     '' or udp.SrcPort == '' @ str_nat p @ '' or udp.DstPort == '' @ str_nat p"

definition precise_filter :: "nat list \<Rightarrow> string" where
  "precise_filter ports =
     ''(tcp or udp) and ('' @ join '' or '' (map port_condition ports) @ '')''"

definition range_filter :: "int \<Rightarrow> int \<Rightarrow> string" where
  "range_filter range_start range_end =
     ''(tcp or udp) and '' @
     ''((tcp.DstPort >= '' @ str_int range_start @ '' and tcp.DstPort <= '' @ str_int range_end @ '') or '' @
     ''(udp.DstPort >= '' @ str_int range_start @ '' and udp.DstPort <= '' @ str_int range_end @ ''))''"

text \<open>The filter the first \<^verbatim>\<open>try\<close> block builds.\<close>

definition filter_str :: "throttler \<Rightarrow> string" where
  "filter_str th =
     (let MAX_LISTED_PORTS = 20;
          range_start = port_range_start (config th);
          range_end = port_range_end (config th)
      in if target_ports th \<noteq> [] \<and> length (target_ports th) \<le> MAX_LISTED_PORTS
         then precise_filter (target_ports th)
         else range_filter range_start range_end)"

text \<open>
  \<^verbatim>\<open>pydivert.WinDivert(f).__enter__()\<close>: the attempt is recorded in the trace and the
  driver answers.
\<close>

definition WinDivert :: "string \<Rightarrow> world \<Rightarrow> open_result \<times> world" where
  "WinDivert f w =
     (shd (opens w), w\<lparr>opens := stl (opens w), trace := trace w @ [Open_capture f]\<rparr>)"

text \<open>
  Opening the capture. \<open>Inr f\<close>: capture has started on a handle opened with filter \<open>f\<close>.
  \<open>Inl e\<close>: the final \<^verbatim>\<open>raise\<close> re-raises the exception of the first attempt.
\<close>

definition packet_capture_context :: "throttler \<Rightarrow> world \<Rightarrow> (error + string) \<times> world" where
  "packet_capture_context th w =
     (case WinDivert (filter_str th) w of
        (Opened, w1) \<Rightarrow> (Inr (filter_str th), w1)
      | (Open_raises msg, w1) \<Rightarrow>
          (let (started, w2) =
                 (if target_ports th \<noteq> [] \<and> contains ''parameter is incorrect'' msg then
                    (let limited_ports = take 5 (target_ports th);
                         simple_filter = precise_filter limited_ports
                     in case WinDivert simple_filter w1 of
                          (Opened, w2) \<Rightarrow> (Some simple_filter, w2)
                        | (Open_raises msg2, w2) \<Rightarrow> (None, w2))
                  else (None, w1))
           in case started of
                Some f \<Rightarrow> (Inr f, w2)
              | None \<Rightarrow>
                  (let basic_filter = ''tcp or udp''
                   in case WinDivert basic_filter w2 of
                        (Opened, w3) \<Rightarrow> (Inr basic_filter, w3)
                      | (Open_raises msg3, w3) \<Rightarrow> (Inl (WinDivert_error msg), w3))))"


section \<open>Invariants and scenarios\<close>

text \<open>
  Concrete environments and states on which the theorems below are exercised.
  \<open>quiet_world ts t\<close>: the clock reads \<open>ts\<close> and then stays at \<open>t\<close>; every random draw
  is 0; the capture driver opens; nothing has happened yet.
\<close>

definition quiet_world :: "real list \<Rightarrow> real \<Rightarrow> world" where
  "quiet_world ts t =
     \<lparr>clock = ts @- sconst t, rng = sconst 0, opens = sconst Opened, trace = []\<rparr>"

text \<open>A limiter of 100 bytes per second constructed at time 10.\<close>

definition idle_limiter :: limiter where
  "idle_limiter =
     \<lparr>max_bytes_per_second = 100, window_size = 1, bucket_size = 100, tokens = 100,
      last_refill = 10, bytes_sent = 0, window_start = 10, lock = False\<rparr>"

text \<open>A limiter of 100 bytes per second that has accounted 90 bytes in its window.\<close>

definition busy_limiter :: limiter where
  "busy_limiter =
     \<lparr>max_bytes_per_second = 100, window_size = 1, bucket_size = 100, tokens = 100,
      last_refill = 3/2, bytes_sent = 90, window_start = 3, lock = False\<rparr>"

text \<open>
  Invariants of the limiter. \<open>rate_ok\<close>: a caller never sets a negative rate.
  \<open>limiter_ok\<close> holds in every state reached from the constructor by such callers;
  \<open>limiter_full cap\<close> is the state of the bucket as long as the rate is never updated.
\<close>

fun rate_ok :: "limiter_op \<Rightarrow> bool" where
  "rate_ok (Update_rate_limit c) = (0 \<le> c)"
| "rate_ok _ = True"

definition limiter_ok :: "limiter \<Rightarrow> bool" where
  "limiter_ok l = (tokens l \<le> bucket_size l \<and> 0 \<le> max_bytes_per_second l \<and> \<not> lock l)"

definition limiter_full :: "real \<Rightarrow> limiter \<Rightarrow> bool" where
  "limiter_full cap l =
     (tokens l = cap \<and> bucket_size l = cap \<and> max_bytes_per_second l = cap \<and> \<not> lock l)"


text \<open>
  The counters of the statistics: their order, their growth from one state to a later one,
  and what one packet does to them.
\<close>

definition counters_ordered :: "throttling_statistics \<Rightarrow> bool" where
  "counters_ordered s =
     (0 \<le> dropped_packets s \<and> dropped_packets s \<le> throttled_packets s
      \<and> throttled_packets s \<le> processed_packets s)"

definition counters_le :: "throttling_statistics \<Rightarrow> throttling_statistics \<Rightarrow> bool" where
  "counters_le s s' =
     (processed_packets s \<le> processed_packets s'
      \<and> throttled_packets s \<le> throttled_packets s'
      \<and> dropped_packets s \<le> dropped_packets s')"

definition packet_step :: "throttling_statistics \<Rightarrow> throttling_statistics \<Rightarrow> bool" where
  "packet_step s s' =
     (processed_packets s' = processed_packets s + 1
      \<and> (throttled_packets s' = throttled_packets s \<and> dropped_packets s' = dropped_packets s
         \<or> throttled_packets s' = throttled_packets s + 1
           \<and> (dropped_packets s' = dropped_packets s
              \<or> dropped_packets s' = dropped_packets s + 1)))"

text \<open>
  A throttler as \<^verbatim>\<open>NetworkThrottler(config)\<close> constructs it at time 0, a packet of three
  bytes, and a session of the capture loop: four packets, the toggle key pressed after the
  first and after the third.
\<close>

definition fresh_throttler :: "config \<Rightarrow> throttler" where
  "fresh_throttler cfg = fst (NetworkThrottler cfg 0 (quiet_world [] 0))"

definition small_packet :: packet where
  "small_packet = \<lparr>raw = ''abc''\<rparr>"

definition dropping_config :: config where
  "dropping_config = default_config\<lparr>packet_drop_rate := 1, status_update_interval := 1\<rparr>"

definition session_events :: "loop_event list" where
  "session_events =
     [Captured small_packet, Key_down ''f1'', Captured small_packet, Captured small_packet,
      Key_down ''f1'', Captured small_packet]"

definition session_world :: world where
  "session_world = (quiet_world [1/2, 1/2] 1)\<lparr>rng := [1/4, 3/4] @- sconst 0\<rparr>"

definition session_throttler :: throttler where
  "session_throttler =
     setup_keyboard_handler (fresh_throttler (default_config\<lparr>packet_drop_rate := 1/2\<rparr>))"

definition session_final :: throttler where
  "session_final =
     session_throttler
       \<lparr>bandwidth_limiter :=
          (bandwidth_limiter session_throttler)\<lparr>last_refill := 1/2, bytes_sent := 3\<rparr>,
        statistics :=
          \<lparr>processed_packets = 4, throttled_packets = 2, dropped_packets = 1, start_time = 0\<rparr>\<rparr>"

definition session_final_world :: world where
  "session_final_world =
     (quiet_world [] 1)\<lparr>trace := [Send small_packet, Sleep (1/100), Send small_packet,
                                   Send small_packet]\<rparr>"

definition enabled_throttler :: throttler where
  "enabled_throttler = toggle_throttling (fresh_throttler default_config)"

definition dropping_throttler :: throttler where
  "dropping_throttler = toggle_throttling (fresh_throttler dropping_config)"


text \<open>
  The final statistics reports in a trace, counted by their heading; a throttler whose
  key listener has been started, and the same after \<^verbatim>\<open>shutdown\<close>.
\<close>

definition final_reports :: "event list \<Rightarrow> nat" where
  "final_reports tr = length (filter (\<lambda>e. e = Info ''Final Statistics:'') tr)"

definition running_throttler :: throttler where
  "running_throttler = setup_keyboard_handler (fresh_throttler default_config)"

definition stopped_throttler :: throttler where
  "stopped_throttler =
     running_throttler\<lparr>shutdown_event := True,
       keyboard_handler := (keyboard_handler running_throttler)\<lparr>running := False\<rparr>\<rparr>"

text \<open>
  Throttlers with given target ports; a capture driver that rejects the first two filters
  as too complex; a process list in which the target is found, and two answers of
  \<^verbatim>\<open>psutil\<close> for its connections: access denied, and process gone.
\<close>

definition web_throttler :: throttler where
  "web_throttler =
     (fresh_throttler default_config)\<lparr>target_ports := [80, 443, 8080, 8443, 53, 123, 5353]\<rparr>"

definition rejecting_world :: world where
  "rejecting_world =
     (quiet_world [] 0)\<lparr>opens := Open_raises ''[WinError 87] The parameter is incorrect''
                                  ## Open_raises ''[WinError 87] The parameter is incorrect''
                                  ## sconst Opened\<rparr>"

definition ports_throttler :: "nat list \<Rightarrow> throttler" where
  "ports_throttler ps = (fresh_throttler default_config)\<lparr>target_ports := ps\<rparr>"

definition chrome_procs :: "proc_entry list" where
  "chrome_procs =
     [Proc_info 4 (Some ''System''), Proc_raises AccessDenied, Proc_info 812 (Some ''Chrome.exe'')]"

definition chrome_throttler :: throttler where
  "chrome_throttler =
     fresh_throttler (default_config\<lparr>process_name_substring := ''chrome''\<rparr>)"

definition denied_psutil :: psutil_connections where
  "denied_psutil pid = (if pid = 812 then Inl AccessDenied else Inr [])"

definition vanished_psutil :: psutil_connections where
  "vanished_psutil pid = (if pid = 812 then Inl NoSuchProcess else Inr [])"

section \<open>Properties of the bandwidth limiter\<close>

lemmas limiter_defs = throttle_def with_lock_def throttle_locked_def refill_tokens_def
  reset_window_if_needed_def time_time_def time_sleep_def can_send_def get_current_rate_kbps_def
  get_current_rate_mbps_def update_rate_limit_def reset_def

text \<open>
  \<^verbatim>\<open>get_stats\<close> never returns: it holds the lock when it calls
  \<^verbatim>\<open>get_current_rate_kbps\<close>, which waits for the same lock.
\<close>

lemma get_stats_never_returns: "get_stats l w = None"
  by (simp add: get_stats_def limiter_defs)

text \<open>
  One call of \<^verbatim>\<open>throttle\<close>, executed symbolically. \<open>t1\<close> to \<open>t4\<close> are the successive
  readings of the clock: in \<^verbatim>\<open>_refill_tokens\<close>, in \<^verbatim>\<open>_reset_window_if_needed\<close>, before the
  wait is computed, and after the sleep.
\<close>

lemma throttle_unfold:
  assumes "\<not> lock l"
  shows "throttle p l w =
    (let t1 = shd (clock w); t2 = shd (stl (clock w)); t3 = shd (stl (stl (clock w)));
         t4 = shd (stl (stl (stl (clock w))));
         elapsed = t1 - last_refill l;
         la = (if elapsed > 0
               then l\<lparr>tokens := min (bucket_size l) (tokens l + elapsed * max_bytes_per_second l),
                      last_refill := t1\<rparr>
               else l);
         lb = (if t2 - window_start la \<ge> window_size la
               then la\<lparr>window_start := t2, bytes_sent := 0\<rparr> else la);
         remaining = window_size lb - (t3 - window_start lb)
     in if real_of_int (bytes_sent lb + p) > max_bytes_per_second lb then
          if remaining > 0 then
            Some ((), lb\<lparr>window_start := t4, bytes_sent := p\<rparr>,
                  w\<lparr>clock := stl (stl (stl (stl (clock w)))),
                    trace := trace w @ [Sleep remaining]\<rparr>)
          else Some ((), lb\<lparr>bytes_sent := bytes_sent lb + p\<rparr>,
                     w\<lparr>clock := stl (stl (stl (clock w)))\<rparr>)
        else Some ((), lb\<lparr>bytes_sent := bytes_sent lb + p\<rparr>,
                   w\<lparr>clock := stl (stl (clock w))\<rparr>))"
  using assms
  by (simp add: limiter_defs Let_def split: prod.splits)

text \<open>
  The guard of \<^verbatim>\<open>_refill_tokens\<close>, \<^verbatim>\<open>if elapsed > 0\<close>: when the clock has not run backwards
  since the last refill and \<open>tokens \<le> bucket_size\<close> (as in every state the limiter
  reaches), the guarded refill is the unguarded one; with no time elapsed both change
  nothing.
\<close>

lemma refill_tokens_unguarded:
  assumes "tokens l \<le> bucket_size l" and "last_refill l \<le> shd (clock w)"
  shows "refill_tokens l w =
           (l\<lparr>tokens := min (bucket_size l)
                           (tokens l + (shd (clock w) - last_refill l) * max_bytes_per_second l),
              last_refill := shd (clock w)\<rparr>,
            w\<lparr>clock := stl (clock w)\<rparr>)"
proof (cases "last_refill l = shd (clock w)")
  case True
  with assms(1) show ?thesis
    by (simp add: refill_tokens_def time_time_def Let_def min_def)
next
  case False
  with assms(2) have "shd (clock w) - last_refill l > 0" by simp
  then show ?thesis
    by (simp add: refill_tokens_def time_time_def Let_def)
qed

text \<open>
  The guard makes a difference only when the clock runs backwards: a limiter constructed
  at time 10 and called when \<^verbatim>\<open>time.time()\<close> reads 5 keeps \<open>last_refill = 10\<close> and
  \<open>tokens = 100\<close>.
\<close>

lemma throttle_backwards_clock:
  "BandwidthLimiter 100 1 (quiet_world [10, 10, 5, 5] 5) = (idle_limiter, quiet_world [5, 5] 5)
   \<and> throttle 10 idle_limiter (quiet_world [5, 5] 5)
     = Some ((), idle_limiter\<lparr>bytes_sent := 10\<rparr>, quiet_world [] 5)"
  by (simp add: BandwidthLimiter_def limiter_defs quiet_world_def idle_limiter_def)

text \<open>
  C2: every call of \<^verbatim>\<open>throttle(packet_size)\<close>, on a limiter in a state it can reach (its
  lock free, \<open>tokens \<le> bucket_size\<close>) and with a clock that has not run backwards since the
  last refill, returns and performs in order:
  (a) \<open>tokens\<close> becomes \<open>min(bucket_size, tokens + elapsed \<times> max_bytes_per_second)\<close>, where
  \<open>elapsed = now - last_refill\<close>, and \<open>last_refill\<close> becomes \<open>now\<close>;
  (b) if \<open>now - window_start \<ge> window_size\<close> then \<open>window_start\<close> becomes \<open>now\<close> and
  \<open>bytes_sent\<close> becomes 0;
  (c) if \<open>bytes_sent + packet_size > max_bytes_per_second\<close> then
  \<open>remaining = window_size - (now - window_start)\<close>, and if \<open>remaining > 0\<close> the caller
  sleeps exactly \<open>remaining\<close>, after which \<open>window_start\<close> becomes \<open>now\<close> and \<open>bytes_sent\<close>
  becomes 0;
  (d) \<open>packet_size\<close> is added to \<open>bytes_sent\<close> in every case.
  \<open>now\<close> is the reading of the clock each step takes: \<open>t1\<close> in (a), \<open>t2\<close> in (b), \<open>t3\<close> in
  (c) and \<open>t4\<close> after the sleep. Nothing else changes.
\<close>

theorem throttle_steps:
  assumes "\<not> lock l" and "tokens l \<le> bucket_size l" and "last_refill l \<le> shd (clock w)"
  shows "throttle p l w =
    (let t1 = shd (clock w); t2 = shd (stl (clock w)); t3 = shd (stl (stl (clock w)));
         t4 = shd (stl (stl (stl (clock w))));
         elapsed = t1 - last_refill l;
         la = l\<lparr>tokens := min (bucket_size l) (tokens l + elapsed * max_bytes_per_second l),
                last_refill := t1\<rparr>;
         lb = (if t2 - window_start la \<ge> window_size la
               then la\<lparr>window_start := t2, bytes_sent := 0\<rparr> else la);
         remaining = window_size lb - (t3 - window_start lb)
     in if real_of_int (bytes_sent lb + p) > max_bytes_per_second lb then
          if remaining > 0 then
            Some ((), lb\<lparr>window_start := t4, bytes_sent := 0 + p\<rparr>,
                  w\<lparr>clock := stl (stl (stl (stl (clock w)))),
                    trace := trace w @ [Sleep remaining]\<rparr>)
          else Some ((), lb\<lparr>bytes_sent := bytes_sent lb + p\<rparr>,
                     w\<lparr>clock := stl (stl (stl (clock w)))\<rparr>)
        else Some ((), lb\<lparr>bytes_sent := bytes_sent lb + p\<rparr>,
                   w\<lparr>clock := stl (stl (clock w))\<rparr>))"
proof (cases "last_refill l = shd (clock w)")
  case True
  with assms(2) show ?thesis
    unfolding throttle_unfold [OF assms(1)] by (simp add: Let_def min_def)
next
  case False
  with assms(3) have "last_refill l < shd (clock w)" by simp
  then show ?thesis
    unfolding throttle_unfold [OF assms(1)] by (simp add: Let_def)
qed

text \<open>
  The witness: a limiter constructed at time 10, a packet of 200 bytes at 10.25: the
  refill, no reset of the window, a sleep of the half second that remains, a new window.
\<close>

theorem throttle_steps_witness:
  "\<not> lock idle_limiter \<and> tokens idle_limiter \<le> bucket_size idle_limiter
   \<and> last_refill idle_limiter \<le> shd (clock (quiet_world [41/4, 21/2, 21/2, 12] 12))
   \<and> throttle 200 idle_limiter (quiet_world [41/4, 21/2, 21/2, 12] 12)
       = Some ((), idle_limiter\<lparr>last_refill := 41/4, window_start := 12, bytes_sent := 200\<rparr>,
               (quiet_world [] 12)\<lparr>trace := [Sleep (1/2)]\<rparr>)"
proof -
  have a: "\<not> lock idle_limiter" and b: "tokens idle_limiter \<le> bucket_size idle_limiter"
    and c: "last_refill idle_limiter \<le> shd (clock (quiet_world [41/4, 21/2, 21/2, 12] 12))"
    by (simp_all add: idle_limiter_def quiet_world_def)
  from throttle_steps [OF a b c, of 200] a b c show ?thesis
    by (simp add: quiet_world_def idle_limiter_def)
qed

text \<open>
  C5, as the claim states it, fails when the clock passes the end of the window between
  the reset check and the computation of the wait. A limiter of 100 bytes per second is
  constructed at time 0; \<^verbatim>\<open>throttle(100)\<close> at 0.1 fills the window; \<^verbatim>\<open>throttle(10)\<close> reads
  0.5 for the refill and 0.9 for the reset check (the window stands), finds
  \<open>100 + 10 > 100\<close>, reads 1.1 and computes \<open>remaining = -0.1\<close>: it does not sleep and
  does not reset the window. Both packets are at most the capacity, no call has slept
  (the trace is empty), and \<open>bytes_sent\<close> is 110.
\<close>

theorem throttle_overshoot_counterexample:
  "map_option (\<lambda>(l, w). (bytes_sent l, max_bytes_per_second l, trace w))
     (case BandwidthLimiter 100 1 (quiet_world [0, 0, 1/10, 1/10, 5/10, 9/10, 11/10] 2) of
        (l0, w0) \<Rightarrow> run_ops [Throttle 100, Throttle 10] l0 w0)
   = Some (110, 100, [])"
  by (simp add: BandwidthLimiter_def forget_def limiter_defs quiet_world_def)

text \<open>
  After a call that returns without sleeping, \<open>bytes_sent\<close> exceeds the capacity in one
  case only: the packet did not fit in the window the reset check has left, and the
  reading of the clock taken for the wait is at or past the end of that window.
\<close>

lemma throttle_no_wait_overshoot_iff:
  assumes "\<not> lock l"
    and "throttle p l w = Some (u, l', w')"
    and "trace w' = trace w"
  shows "(real_of_int (bytes_sent l') > max_bytes_per_second l') =
         (real_of_int ((if shd (stl (clock w)) - window_start l \<ge> window_size l
                        then 0 else bytes_sent l) + p) > max_bytes_per_second l
          \<and> window_size l \<le> shd (stl (stl (clock w)))
                - (if shd (stl (clock w)) - window_start l \<ge> window_size l
                   then shd (stl (clock w)) else window_start l))"
  using assms(2,3) unfolding throttle_unfold [OF assms(1)]
  by (auto simp: Let_def split: if_splits)

text \<open>
  C5, amended: for every state of the limiter and every packet size, immediately after a
  completed call of \<^verbatim>\<open>throttle\<close> that did not suspend the caller (the trace has gained no
  sleep), \<open>bytes_sent\<close> does not exceed \<open>max_bytes_per_second\<close>, provided that, if the
  packet did not fit in the window (\<open>bytes_sent + packet_size > max_bytes_per_second\<close>
  after the reset check), the reading of the clock from which the wait is computed is
  still inside the window: \<open>now - window_start < window_size\<close>, with the \<open>window_start\<close> and
  \<open>bytes_sent\<close> the reset check has left. A call whose packet fits reads the clock twice
  only, and nothing is asked of later readings.
\<close>

theorem throttle_no_wait_within_capacity:
  assumes "\<not> lock l"
    and "throttle p l w = Some (u, l', w')"
    and "trace w' = trace w"
    and "real_of_int ((if shd (stl (clock w)) - window_start l \<ge> window_size l
                       then 0 else bytes_sent l) + p) > max_bytes_per_second l
         \<longrightarrow> shd (stl (stl (clock w)))
               - (if shd (stl (clock w)) - window_start l \<ge> window_size l
                  then shd (stl (clock w)) else window_start l) < window_size l"
  shows "real_of_int (bytes_sent l') \<le> max_bytes_per_second l'"
  using assms(2-4) unfolding throttle_unfold [OF assms(1)]
  by (auto simp: Let_def split: if_splits)

text \<open>
  The witness: a packet of 60 bytes fits; the call returns without sleeping, whatever the
  clock reads afterwards (here 20, far past the window).
\<close>

theorem throttle_no_wait_within_capacity_witness:
  "\<not> lock idle_limiter
   \<and> throttle 60 idle_limiter (quiet_world [21/2, 21/2] 20)
       = Some ((), idle_limiter\<lparr>last_refill := 21/2, bytes_sent := 60\<rparr>, quiet_world [] 20)
   \<and> trace (quiet_world [] 20) = trace (quiet_world [21/2, 21/2] 20)
   \<and> \<not> window_size idle_limiter
         \<le> shd (stl (clock (quiet_world [21/2, 21/2] 20))) - window_start idle_limiter
   \<and> \<not> real_of_int (bytes_sent idle_limiter + 60) > max_bytes_per_second idle_limiter
   \<and> \<not> shd (stl (stl (clock (quiet_world [21/2, 21/2] 20)))) - window_start idle_limiter
         < window_size idle_limiter
   \<and> real_of_int (bytes_sent (idle_limiter\<lparr>last_refill := 21/2, bytes_sent := 60\<rparr>))
        \<le> max_bytes_per_second (idle_limiter\<lparr>last_refill := 21/2, bytes_sent := 60\<rparr>)"
proof -
  let ?w = "quiet_world [21/2, 21/2] 20"
  have a: "\<not> lock idle_limiter" by (simp add: idle_limiter_def)
  have b: "throttle 60 idle_limiter ?w
       = Some ((), idle_limiter\<lparr>last_refill := 21/2, bytes_sent := 60\<rparr>, quiet_world [] 20)"
    by (simp add: limiter_defs quiet_world_def idle_limiter_def)
  have c: "trace (quiet_world [] 20) = trace ?w"
    by (simp add: quiet_world_def)
  have d: "real_of_int ((if shd (stl (clock ?w)) - window_start idle_limiter
                              \<ge> window_size idle_limiter
                         then 0 else bytes_sent idle_limiter) + 60)
             > max_bytes_per_second idle_limiter
         \<longrightarrow> shd (stl (stl (clock ?w)))
               - (if shd (stl (clock ?w)) - window_start idle_limiter \<ge> window_size idle_limiter
                  then shd (stl (clock ?w)) else window_start idle_limiter)
             < window_size idle_limiter"
    by (simp add: quiet_world_def idle_limiter_def)
  have e: "\<not> window_size idle_limiter \<le> shd (stl (clock ?w)) - window_start idle_limiter"
    "\<not> real_of_int (bytes_sent idle_limiter + 60) > max_bytes_per_second idle_limiter"
    "\<not> shd (stl (stl (clock ?w))) - window_start idle_limiter < window_size idle_limiter"
    by (simp_all add: quiet_world_def idle_limiter_def)
  from throttle_no_wait_within_capacity [OF a b c d] a b c e show ?thesis by simp
qed

text \<open>
  With a clock that does not advance between the reset check and the computation of the
  wait, and a positive window, the proviso holds by itself.
\<close>

lemma throttle_no_wait_steady_clock:
  assumes "\<not> lock l"
    and "0 < window_size l"
    and "shd (stl (stl (clock w))) = shd (stl (clock w))"
    and "throttle p l w = Some (u, l', w')"
    and "trace w' = trace w"
  shows "real_of_int (bytes_sent l') \<le> max_bytes_per_second l'"
  using assms(2-5) unfolding throttle_unfold [OF assms(1)]
  by (auto simp: Let_def split: if_splits)

text \<open>Calls other than \<^verbatim>\<open>update_rate_limit\<close> never decrease \<open>tokens\<close>; the invariants are kept.\<close>

lemma apply_op_tokens_mono:
  assumes "limiter_ok l" "\<not> is_update x" "apply_op x l w = Some (l', w')"
  shows "tokens l \<le> tokens l'"
  using assms
  by (cases x)
     (auto simp: limiter_ok_def forget_def limiter_defs get_stats_never_returns Let_def
           split: prod.splits if_splits option.splits)

lemma apply_op_update:
  assumes "apply_op (Update_rate_limit c) l w = Some (l', w')"
  shows "tokens l' = min (tokens l) c"
  using assms
  by (auto simp: forget_def limiter_defs Let_def split: prod.splits if_splits option.splits)

lemma apply_op_ok:
  assumes "limiter_ok l" "rate_ok x" "apply_op x l w = Some (l', w')"
  shows "limiter_ok l'"
  using assms
  by (cases x)
     (auto simp: limiter_ok_def forget_def limiter_defs get_stats_never_returns Let_def
           split: prod.splits if_splits option.splits)

lemma run_ops_ok:
  "limiter_ok l \<Longrightarrow> list_all rate_ok xs \<Longrightarrow> run_ops xs l w = Some (l', w') \<Longrightarrow> limiter_ok l'"
proof (induction xs arbitrary: l w)
  case Nil
  then show ?case by simp
next
  case (Cons x xs)
  from Cons.prems(3) obtain l1 w1 where
    step: "apply_op x l w = Some (l1, w1)" and rest: "run_ops xs l1 w1 = Some (l', w')"
    by (auto split: option.splits)
  from Cons.prems(1,2) step have "limiter_ok l1"
    by (auto intro: apply_op_ok)
  with Cons.IH rest Cons.prems(2) show ?case by simp
qed

lemma BandwidthLimiter_ok: "0 \<le> cap \<Longrightarrow> limiter_ok (fst (BandwidthLimiter cap ws w))"
  by (simp add: limiter_ok_def BandwidthLimiter_def time_time_def split: prod.splits)

lemma apply_op_full:
  assumes "limiter_full cap l" "0 \<le> cap" "\<not> is_update x" "apply_op x l w = Some (l', w')"
  shows "limiter_full cap l'"
  using assms
  by (cases x)
     (auto simp: limiter_full_def forget_def limiter_defs get_stats_never_returns Let_def
           split: prod.splits if_splits option.splits)

lemma run_ops_full:
  assumes "0 \<le> cap"
  shows "limiter_full cap l \<Longrightarrow> \<forall>x\<in>set xs. \<not> is_update x \<Longrightarrow> run_ops xs l w = Some (l', w')
         \<Longrightarrow> limiter_full cap l'"
proof (induction xs arbitrary: l w)
  case Nil
  then show ?case by simp
next
  case (Cons x xs)
  from Cons.prems(3) obtain l1 w1 where
    step: "apply_op x l w = Some (l1, w1)" and rest: "run_ops xs l1 w1 = Some (l', w')"
    by (auto split: option.splits)
  from Cons.prems(1,2) step assms have "limiter_full cap l1"
    by (auto intro: apply_op_full)
  with Cons.IH rest Cons.prems(2) show ?case by simp
qed

lemma BandwidthLimiter_full: "limiter_full cap (fst (BandwidthLimiter cap ws w))"
  by (simp add: limiter_full_def BandwidthLimiter_def time_time_def split: prod.splits)

lemma can_send_full:
  assumes "limiter_full cap l" "0 \<le> cap" "real_of_int s \<le> cap"
  shows "\<exists>l' w'. can_send s l w = Some (True, l', w')"
  using assms
  by (auto simp: limiter_full_def limiter_defs Let_def split: prod.splits)

lemma apply_op_returns:
  assumes "\<not> lock l" "x \<noteq> Get_stats"
  shows "\<exists>l' w'. apply_op x l w = Some (l', w') \<and> \<not> lock l'"
  using assms
  by (cases x) (auto simp: forget_def limiter_defs Let_def split: prod.splits)

lemma run_ops_returns:
  "\<not> lock l \<Longrightarrow> Get_stats \<notin> set xs \<Longrightarrow> \<exists>l' w'. run_ops xs l w = Some (l', w')"
proof (induction xs arbitrary: l w)
  case Nil
  then show ?case by simp
next
  case (Cons x xs)
  then obtain l1 w1 where "apply_op x l w = Some (l1, w1)" "\<not> lock l1"
    using apply_op_returns [of l x w] by auto
  with Cons show ?case by auto
qed

text \<open>
  C9: in every state reached from the constructor (with a non-negative rate, by callers
  that set no negative rate) no call of a public method decreases \<open>tokens\<close>, except
  \<^verbatim>\<open>update_rate_limit\<close>, which leaves \<open>min(tokens, new rate)\<close>: the downward clamp.
  Consequently, on a limiter whose rate is never updated, \<open>tokens = max_bytes_per_second\<close>
  (the capacity given to the constructor) after every call, and \<^verbatim>\<open>can_send(s)\<close> returns
  \<^verbatim>\<open>True\<close> for every \<open>s\<close> up to the capacity, whatever \<^verbatim>\<open>throttle\<close> has accounted.
  The capacity is a configured bandwidth: \<open>validate_settings\<close> admits positive ones only.
\<close>

theorem token_bucket_never_gates:
  "(0 \<le> cap \<and> list_all rate_ok xs
      \<and> run_ops xs (fst (BandwidthLimiter cap ws w0)) w1 = Some (l, w)
      \<and> apply_op x l w = Some (l', w')
    \<longrightarrow> (case x of Update_rate_limit c \<Rightarrow> tokens l' = min (tokens l) c
                | _ \<Rightarrow> tokens l \<le> tokens l'))
   \<and> (0 \<le> cap \<and> (\<forall>y\<in>set ys. \<not> is_update y)
        \<and> run_ops ys (fst (BandwidthLimiter cap ws w0)) w1 = Some (l2, w2)
      \<longrightarrow> tokens l2 = max_bytes_per_second l2 \<and> max_bytes_per_second l2 = cap
          \<and> (\<forall>s. real_of_int s \<le> cap \<longrightarrow> (\<exists>l3 w3. can_send s l2 w2 = Some (True, l3, w3))))"
proof (intro conjI impI)
  assume a: "0 \<le> cap \<and> list_all rate_ok xs
      \<and> run_ops xs (fst (BandwidthLimiter cap ws w0)) w1 = Some (l, w)
      \<and> apply_op x l w = Some (l', w')"
  then have ok: "limiter_ok l"
    using run_ops_ok [OF BandwidthLimiter_ok] by blast
  show "case x of Update_rate_limit c \<Rightarrow> tokens l' = min (tokens l) c
                | _ \<Rightarrow> tokens l \<le> tokens l'"
  proof (cases "is_update x")
    case True
    then obtain c where "x = Update_rate_limit c" by (cases x) auto
    moreover from this a have "apply_op (Update_rate_limit c) l w = Some (l', w')" by blast
    ultimately show ?thesis by (simp add: apply_op_update del: apply_op.simps)
  next
    case False
    with ok a have "tokens l \<le> tokens l'" by (blast intro: apply_op_tokens_mono)
    with False show ?thesis by (cases x) auto
  qed
next
  assume b: "0 \<le> cap \<and> (\<forall>y\<in>set ys. \<not> is_update y)
        \<and> run_ops ys (fst (BandwidthLimiter cap ws w0)) w1 = Some (l2, w2)"
  then have full: "limiter_full cap l2"
    using run_ops_full [OF _ BandwidthLimiter_full] by blast
  then show "tokens l2 = max_bytes_per_second l2" "max_bytes_per_second l2 = cap"
    by (simp_all add: limiter_full_def)
  from full b show "\<forall>s. real_of_int s \<le> cap \<longrightarrow> (\<exists>l3 w3. can_send s l2 w2 = Some (True, l3, w3))"
    by (blast intro: can_send_full)
qed


text \<open>
  The witness: two calls of \<^verbatim>\<open>throttle\<close> (the second one sleeps) leave 90 bytes accounted
  and the bucket full; \<^verbatim>\<open>can_send(100)\<close> is \<^verbatim>\<open>True\<close>, and a further call does not decrease
  \<open>tokens\<close>.
\<close>

theorem token_bucket_never_gates_witness:
  "run_ops [Throttle 60, Throttle 90] (fst (BandwidthLimiter 100 1 (quiet_world [] 0)))
     (quiet_world [1, 1, 3/2, 3/2, 3/2, 3] 3)
     = Some (busy_limiter, (quiet_world [] 3)\<lparr>trace := [Sleep (1/2)]\<rparr>)
   \<and> tokens busy_limiter = 100 \<and> max_bytes_per_second busy_limiter = 100
   \<and> bytes_sent busy_limiter = 90
   \<and> (\<exists>l3 w3. can_send 100 busy_limiter ((quiet_world [] 3)\<lparr>trace := [Sleep (1/2)]\<rparr>)
                  = Some (True, l3, w3))
   \<and> apply_op (Throttle 5) busy_limiter ((quiet_world [] 3)\<lparr>trace := [Sleep (1/2)]\<rparr>)
       = Some (busy_limiter\<lparr>last_refill := 3, bytes_sent := 95\<rparr>,
               (quiet_world [] 3)\<lparr>trace := [Sleep (1/2)]\<rparr>)
   \<and> tokens busy_limiter \<le> tokens (busy_limiter\<lparr>last_refill := 3, bytes_sent := 95\<rparr>)"
proof -
  have run2: "run_ops [Throttle 60, Throttle 90] (fst (BandwidthLimiter 100 1 (quiet_world [] 0)))
     (quiet_world [1, 1, 3/2, 3/2, 3/2, 3] 3)
     = Some (busy_limiter, (quiet_world [] 3)\<lparr>trace := [Sleep (1/2)]\<rparr>)"
    by (simp add: BandwidthLimiter_def forget_def limiter_defs quiet_world_def busy_limiter_def)
  have step: "apply_op (Throttle 5) busy_limiter ((quiet_world [] 3)\<lparr>trace := [Sleep (1/2)]\<rparr>)
       = Some (busy_limiter\<lparr>last_refill := 3, bytes_sent := 95\<rparr>,
               (quiet_world [] 3)\<lparr>trace := [Sleep (1/2)]\<rparr>)"
    by (simp add: forget_def limiter_defs quiet_world_def busy_limiter_def)
  have le: "(100::real) \<le> 100" by simp
  show ?thesis
    using token_bucket_never_gates
      [of 100 "[Throttle 60, Throttle 90]" 1 "quiet_world [] 0"
          "quiet_world [1, 1, 3/2, 3/2, 3/2, 3] 3"
          busy_limiter "(quiet_world [] 3)\<lparr>trace := [Sleep (1/2)]\<rparr>" "Throttle 5"
          "busy_limiter\<lparr>last_refill := 3, bytes_sent := 95\<rparr>"
          "(quiet_world [] 3)\<lparr>trace := [Sleep (1/2)]\<rparr>"
          "[Throttle 60, Throttle 90]" busy_limiter "(quiet_world [] 3)\<lparr>trace := [Sleep (1/2)]\<rparr>"]
      run2 step
    by (simp del: run_ops.simps apply_op.simps) (simp add: busy_limiter_def)
qed


section \<open>Properties of the packet pipeline\<close>

lemmas pipeline_defs = process_packet_def forward_def update_status_def apply_throttling_def
  should_drop_packet_def random_random_def emit_def increment_processed_def
  increment_throttled_def increment_dropped_def

lemmas scenario_defs = fresh_throttler_def NetworkThrottler_def BandwidthLimiter_def
  setup_keyboard_handler_def register_callback_def start_def KeyboardHandler_def
  ThrottlingStatistics_def default_config_def dropping_config_def config_max_bytes_per_second_def
  quiet_world_def small_packet_def lag_delay_seconds_def toggle_throttling_def

lemma throttle_returns:
  assumes "\<not> lock l"
  shows "\<exists>l' w'. throttle p l w = Some ((), l', w') \<and> \<not> lock l'"
  using assms by (simp add: limiter_defs Let_def split: prod.splits)

lemma get_current_rate_kbps_unfold:
  assumes "\<not> lock l"
  shows "get_current_rate_kbps l w =
     Some (if shd (clock w) - window_start l > 0
           then (real_of_int (bytes_sent l) / (shd (clock w) - window_start l)) / 1024 else 0,
           l, w\<lparr>clock := stl (clock w)\<rparr>)"
  using assms by (simp add: limiter_defs Let_def)

lemma update_status_returns:
  assumes "\<not> lock (bandwidth_limiter th)"
  shows "\<exists>e w'. update_status b th w = Some (e, th, w')"
  using assms by (simp add: update_status_def get_current_rate_kbps_unfold Let_def emit_def)

text \<open>One packet, executed symbolically down to the status report.\<close>

lemma process_packet_unfold:
  assumes "\<not> lock (bandwidth_limiter th)"
  shows "process_packet pkt th w =
    (let st = statistics th;
         packet_size = int (length (raw pkt))
     in if \<not> throttling_enabled th then
          update_status False
            (th\<lparr>statistics := st\<lparr>processed_packets := processed_packets st + 1\<rparr>\<rparr>)
            (w\<lparr>trace := trace w @ [Send pkt]\<rparr>)
        else if shd (rng w) < packet_drop_rate (config th) then
          Some (None,
                th\<lparr>statistics := st\<lparr>processed_packets := processed_packets st + 1,
                                     throttled_packets := throttled_packets st + 1,
                                     dropped_packets := dropped_packets st + 1\<rparr>\<rparr>,
                w\<lparr>rng := stl (rng w)\<rparr>)
        else
          (case throttle packet_size (bandwidth_limiter th) (w\<lparr>rng := stl (rng w)\<rparr>) of
             None \<Rightarrow> None
           | Some (u, l1, w1) \<Rightarrow>
               update_status True
                 (th\<lparr>statistics := st\<lparr>processed_packets := processed_packets st + 1,
                                      throttled_packets := throttled_packets st + 1\<rparr>,
                     bandwidth_limiter := l1\<rparr>)
                 (w1\<lparr>trace := trace w1
                      @ (if lag_delay_ms (config th) > 0
                         then [Sleep (lag_delay_seconds (config th))] else [])
                      @ [Send pkt]\<rparr>)))"
  by (auto simp: pipeline_defs time_sleep_def Let_def split: prod.splits option.splits)

lemma process_packet_returns:
  assumes "\<not> lock (bandwidth_limiter th)"
  shows "\<exists>e th' w'. process_packet pkt th w = Some (e, th', w') \<and> \<not> lock (bandwidth_limiter th')"
proof -
  let ?st = "statistics th"
  consider (off) "\<not> throttling_enabled th"
    | (dropped) "throttling_enabled th" "shd (rng w) < packet_drop_rate (config th)"
    | (shaped) "throttling_enabled th" "\<not> shd (rng w) < packet_drop_rate (config th)"
    by blast
  then show ?thesis
  proof cases
    case off
    let ?th = "th\<lparr>statistics := ?st\<lparr>processed_packets := processed_packets ?st + 1\<rparr>\<rparr>"
    have free: "\<not> lock (bandwidth_limiter ?th)" using assms by simp
    from update_status_returns [OF free] obtain e w' where
      "update_status False ?th (w\<lparr>trace := trace w @ [Send pkt]\<rparr>) = Some (e, ?th, w')"
      by blast
    with off free show ?thesis
      unfolding process_packet_unfold [OF assms] by (simp add: Let_def)
  next
    case dropped
    with assms show ?thesis
      unfolding process_packet_unfold [OF assms] by (simp add: Let_def)
  next
    case shaped
    obtain l1 w1 where t: "throttle (int (length (raw pkt))) (bandwidth_limiter th)
        (w\<lparr>rng := stl (rng w)\<rparr>) = Some ((), l1, w1)" and l1: "\<not> lock l1"
      using throttle_returns [OF assms] by blast
    let ?th = "th\<lparr>statistics := ?st\<lparr>processed_packets := processed_packets ?st + 1,
                                      throttled_packets := throttled_packets ?st + 1\<rparr>,
                   bandwidth_limiter := l1\<rparr>"
    let ?w = "w1\<lparr>trace := trace w1
                      @ (if lag_delay_ms (config th) > 0
                         then [Sleep (lag_delay_seconds (config th))] else [])
                      @ [Send pkt]\<rparr>"
    have free: "\<not> lock (bandwidth_limiter ?th)" using l1 by simp
    from update_status_returns [OF free] obtain e w' where
      "update_status True ?th ?w = Some (e, ?th, w')"
      by blast
    with shaped t free show ?thesis
      unfolding process_packet_unfold [OF assms] by (simp add: Let_def)
  qed
qed

text \<open>
  With a configuration that \<open>validate_settings\<close> admits, the status interval is positive and
  no packet raises.
\<close>

lemma validated_interval:
  "validate_settings c = Inr () \<Longrightarrow> 0 < status_update_interval c"
  by (simp add: validate_settings_def split: if_splits)

lemma update_status_no_error:
  assumes "\<not> lock (bandwidth_limiter th)" and "status_update_interval (config th) \<noteq> 0"
  shows "\<exists>w'. update_status b th w = Some (None, th, w')"
  using assms by (simp add: update_status_def get_current_rate_kbps_unfold Let_def emit_def)

lemma validated_packet_no_error:
  assumes "\<not> lock (bandwidth_limiter th)" and "validate_settings (config th) = Inr ()"
    and "process_packet pkt th w = Some (e, th', w')"
  shows "e = None"
proof -
  have nz: "status_update_interval (config th) \<noteq> 0"
    using validated_interval [OF assms(2)] by simp
  obtain l1 w1 where t: "throttle (int (length (raw pkt))) (bandwidth_limiter th)
      (w\<lparr>rng := stl (rng w)\<rparr>) = Some ((), l1, w1)" and l1: "\<not> lock l1"
    using throttle_returns [OF assms(1)] by blast
  from assms(3) nz t show ?thesis
    unfolding process_packet_unfold [OF assms(1)]
    by (auto simp: Let_def update_status_def get_current_rate_kbps_unfold [OF assms(1)]
          get_current_rate_kbps_unfold [OF l1] split: if_splits)
qed

lemma keyboard_listener_limiter:
  "keyboard_listener k th w = (th', w') \<Longrightarrow> bandwidth_limiter th' = bandwidth_limiter th"
  by (auto simp: keyboard_listener_def toggle_throttling_def shutdown_def stop_def Let_def
        split: if_splits option.splits callback.splits prod.splits)

lemma capture_loop_returns:
  "\<not> lock (bandwidth_limiter th) \<Longrightarrow> \<exists>e th' w'. capture_loop es th w = Some (e, th', w')"
proof (induction es arbitrary: th w)
  case Nil
  then show ?case by simp
next
  case (Cons ev es)
  show ?case
  proof (cases ev)
    case (Key_down k)
    obtain th1 w1 where kl: "keyboard_listener k th w = (th1, w1)"
      by (cases "keyboard_listener k th w")
    with Cons.prems have "\<not> lock (bandwidth_limiter th1)"
      by (simp add: keyboard_listener_limiter)
    from Cons.IH [OF this] Key_down kl show ?thesis by simp
  next
    case (Captured p)
    obtain r th1 w1 where pp: "process_packet p th w = Some (r, th1, w1)"
      and free: "\<not> lock (bandwidth_limiter th1)"
      using process_packet_returns [OF Cons.prems] by blast
    from Cons.IH [OF free] Captured pp show ?thesis
      by (cases r) auto
  qed
qed

lemmas run_defs = keyboard_listener_def pipeline_defs limiter_defs shutdown_def
  stop_def log_final_stats_def statistics_get_stats_def Let_def

lemma update_status_statistics:
  "update_status b th w = Some (e, th', w') \<Longrightarrow> statistics th' = statistics th"
  by (auto simp: update_status_def Let_def split: if_splits option.splits)

lemma process_packet_step:
  assumes "process_packet pkt th w = Some (e, th', w')"
  shows "packet_step (statistics th) (statistics th')"
  using assms
  by (auto simp: packet_step_def process_packet_def forward_def apply_throttling_def
        should_drop_packet_def random_random_def increment_processed_def
        increment_throttled_def increment_dropped_def Let_def
        dest!: update_status_statistics
        split: if_splits option.splits prod.splits)

lemma keyboard_listener_statistics:
  "keyboard_listener k th w = (th', w') \<Longrightarrow> statistics th' = statistics th"
  by (auto simp: keyboard_listener_def toggle_throttling_def shutdown_def stop_def Let_def
        split: if_splits option.splits callback.splits prod.splits)

lemma packet_step_ordered:
  "packet_step s s' \<Longrightarrow> counters_ordered s \<Longrightarrow> counters_ordered s' \<and> counters_le s s'"
  by (auto simp: packet_step_def counters_ordered_def counters_le_def)

lemma counters_le_trans: "counters_le a b \<Longrightarrow> counters_le b c \<Longrightarrow> counters_le a c"
  by (auto simp: counters_le_def)

lemma capture_loop_counters:
  "capture_loop es th w = Some (e, th', w') \<Longrightarrow> counters_ordered (statistics th)
   \<Longrightarrow> counters_ordered (statistics th') \<and> counters_le (statistics th) (statistics th')"
proof (induction es arbitrary: th w)
  case Nil
  then show ?case by (simp add: counters_le_def)
next
  case (Cons ev es)
  show ?case
  proof (cases ev)
    case (Key_down k)
    obtain th1 w1 where kl: "keyboard_listener k th w = (th1, w1)"
      by (cases "keyboard_listener k th w")
    then have same: "statistics th1 = statistics th"
      by (rule keyboard_listener_statistics)
    from Cons.prems(1) Key_down kl have "capture_loop es th1 w1 = Some (e, th', w')"
      by simp
    from Cons.IH [OF this] Cons.prems(2) same show ?thesis
      by simp
  next
    case (Captured p)
    show ?thesis
    proof (cases "shutdown_event th")
      case True
      with Cons.prems Captured show ?thesis by (simp add: counters_le_def)
    next
      case False
      with Cons.prems(1) Captured obtain r th1 w1 where
        pp: "process_packet p th w = Some (r, th1, w1)"
        by (auto split: option.splits)
      from process_packet_step [OF pp] Cons.prems(2)
      have st: "counters_ordered (statistics th1)" "counters_le (statistics th) (statistics th1)"
        by (auto dest: packet_step_ordered)
      show ?thesis
      proof (cases r)
        case None
        with Cons.prems(1) Captured False pp
        have "capture_loop es th1 w1 = Some (e, th', w')" by simp
        from Cons.IH [OF this st(1)] st(2) show ?thesis
          by (blast intro: counters_le_trans)
      next
        case (Some a)
        with Cons.prems(1) Captured False pp have "th' = th1" by simp
        with st show ?thesis by simp
      qed
    qed
  qed
qed


text \<open>
  C1: for every captured packet (the lock of the limiter being free, as it is whenever the
  loop runs) the pipeline increments \<open>processed_packets\<close> first. If throttling is
  disabled, the packet is sent with \<open>throttled_packets\<close>, \<open>dropped_packets\<close>, the limiter,
  the clock and the random source untouched and with no sleep. If throttling is enabled,
  \<open>throttled_packets\<close> is incremented and one random value is drawn: if it is below
  \<open>packet_drop_rate\<close>, \<open>dropped_packets\<close> is incremented and nothing else happens (no send,
  no call of the limiter, no sleep: the trace, the limiter and the clock are as before);
  otherwise \<^verbatim>\<open>throttle\<close> is called with the length of the packet (and returns), then the
  fixed delay is slept when \<open>lag_delay_ms > 0\<close>, then the packet is sent. In the two cases
  that send, the status update follows the send.
\<close>

theorem process_packet_pipeline:
  assumes "\<not> lock (bandwidth_limiter th)"
  shows "process_packet pkt th w =
    (let st = statistics th;
         packet_size = int (length (raw pkt))
     in if \<not> throttling_enabled th then
          update_status False
            (th\<lparr>statistics := st\<lparr>processed_packets := processed_packets st + 1\<rparr>\<rparr>)
            (w\<lparr>trace := trace w @ [Send pkt]\<rparr>)
        else if shd (rng w) < packet_drop_rate (config th) then
          Some (None,
                th\<lparr>statistics := st\<lparr>processed_packets := processed_packets st + 1,
                                     throttled_packets := throttled_packets st + 1,
                                     dropped_packets := dropped_packets st + 1\<rparr>\<rparr>,
                w\<lparr>rng := stl (rng w)\<rparr>)
        else
          (case throttle packet_size (bandwidth_limiter th) (w\<lparr>rng := stl (rng w)\<rparr>) of
             None \<Rightarrow> None
           | Some (u, l1, w1) \<Rightarrow>
               update_status True
                 (th\<lparr>statistics := st\<lparr>processed_packets := processed_packets st + 1,
                                      throttled_packets := throttled_packets st + 1\<rparr>,
                     bandwidth_limiter := l1\<rparr>)
                 (w1\<lparr>trace := trace w1
                      @ (if lag_delay_ms (config th) > 0
                         then [Sleep (lag_delay_seconds (config th))] else [])
                      @ [Send pkt]\<rparr>)))
     \<and> (\<exists>l1 w1. throttle (int (length (raw pkt))) (bandwidth_limiter th)
                     (w\<lparr>rng := stl (rng w)\<rparr>) = Some ((), l1, w1))"
  using process_packet_unfold [OF assms, of pkt w]
    throttle_returns [OF assms, of "int (length (raw pkt))" "w\<lparr>rng := stl (rng w)\<rparr>"]
  by blast

text \<open>
  The witness: throttling enabled, default configuration (no drop, 10 ms of delay), a
  packet of three bytes: the limiter accounts 3 bytes, the delay is slept, the packet is
  sent.
\<close>

theorem process_packet_pipeline_witness:
  "\<not> lock (bandwidth_limiter enabled_throttler)
   \<and> process_packet small_packet enabled_throttler (quiet_world [1/2, 1/2] 1)
      = Some (None,
              enabled_throttler
                \<lparr>statistics := \<lparr>processed_packets = 1, throttled_packets = 1,
                                  dropped_packets = 0, start_time = 0\<rparr>,
                 bandwidth_limiter :=
                   (bandwidth_limiter enabled_throttler)\<lparr>last_refill := 1/2, bytes_sent := 3\<rparr>\<rparr>,
              (quiet_world [] 1)\<lparr>trace := [Sleep (1/100), Send small_packet]\<rparr>)"
proof -
  have free: "\<not> lock (bandwidth_limiter enabled_throttler)"
    by (simp add: enabled_throttler_def scenario_defs time_time_def)
  from process_packet_pipeline [OF free, of small_packet "quiet_world [1/2, 1/2] 1"] free
  show ?thesis
    by (simp add: enabled_throttler_def scenario_defs update_status_def limiter_defs emit_def)
qed

text \<open>
  The status report. A packet that is not dropped is followed by a status line exactly
  when it brings \<open>processed_packets\<close> to a multiple of \<open>status_update_interval\<close>; the line
  carries the mode, the three counters and the rate of the limiter. A dropped packet
  returns before \<^verbatim>\<open>_update_status\<close> and is never followed by one.
\<close>

lemma forwarded_packet_reports:
  assumes "\<not> lock (bandwidth_limiter th)"
    and "status_update_interval (config th) \<noteq> 0"
    and "\<not> (throttling_enabled th \<and> shd (rng w) < packet_drop_rate (config th))"
    and "process_packet pkt th w = Some (e, th', w')"
  shows "e = None
    \<and> (((processed_packets (statistics th) + 1) mod status_update_interval (config th) = 0)
       = (\<exists>r. last (trace w') =
            Print_status (if throttling_enabled th then ''THROTTLING'' else ''NORMAL'')
              (processed_packets (statistics th')) (throttled_packets (statistics th'))
              (dropped_packets (statistics th')) r))"
proof (cases "throttling_enabled th")
  case False
  with assms(2,4) show ?thesis
    unfolding process_packet_unfold [OF assms(1)]
    by (auto simp: Let_def update_status_def get_current_rate_kbps_unfold [OF assms(1)] emit_def
          split: if_splits)
next
  case True
  obtain l1 w1 where t: "throttle (int (length (raw pkt))) (bandwidth_limiter th)
      (w\<lparr>rng := stl (rng w)\<rparr>) = Some ((), l1, w1)" and l1: "\<not> lock l1"
    using throttle_returns [OF assms(1)] by blast
  from True assms(2,3,4) t show ?thesis
    unfolding process_packet_unfold [OF assms(1)]
    by (auto simp: Let_def update_status_def get_current_rate_kbps_unfold [OF l1] emit_def
          split: if_splits)
qed

lemma dropped_packet_skips_status:
  assumes "throttling_enabled th" and "shd (rng w) < packet_drop_rate (config th)"
  shows "\<exists>th'. process_packet pkt th w = Some (None, th', w\<lparr>rng := stl (rng w)\<rparr>)
           \<and> processed_packets (statistics th') = processed_packets (statistics th) + 1"
  using assms by (simp add: pipeline_defs Let_def)

text \<open>
  C6 at a failing input: status interval 1, drop rate 1, throttling enabled. The first
  packet is dropped; it brings \<open>processed_packets\<close> to 1, a multiple of the interval, and
  the trace stays empty: no status line. The same packet with throttling disabled is sent
  and followed by its status line.
\<close>

theorem dropped_packet_no_status:
  "process_packet small_packet dropping_throttler (quiet_world [] 1)
     = Some (None,
             dropping_throttler
               \<lparr>statistics := \<lparr>processed_packets = 1, throttled_packets = 1,
                                 dropped_packets = 1, start_time = 0\<rparr>\<rparr>,
             quiet_world [] 1)
   \<and> (1::int) mod status_update_interval (config dropping_throttler) = 0
   \<and> trace (quiet_world [] 1) = []
   \<and> process_packet small_packet (fresh_throttler dropping_config) (quiet_world [] 1)
     = Some (None,
             (fresh_throttler dropping_config)
               \<lparr>statistics := \<lparr>processed_packets = 1, throttled_packets = 0,
                                 dropped_packets = 0, start_time = 0\<rparr>\<rparr>,
             (quiet_world [] 1)\<lparr>trace := [Send small_packet, Print_status ''NORMAL'' 1 0 0 0]\<rparr>)"
  by (simp add: dropping_throttler_def scenario_defs run_defs)

text \<open>
  C10: starting from a fresh statistics object, after any run of the capture loop
  (packets, with presses of any keys in between, whether the run ends normally or by an
  exception) \<open>0 \<le> dropped_packets \<le> throttled_packets \<le> processed_packets\<close>. One packet
  increments \<open>processed_packets\<close>; it increments \<open>throttled_packets\<close> or leaves it, and it
  increments \<open>dropped_packets\<close> only when it increments \<open>throttled_packets\<close>. No counter
  ever decreases along a run.
\<close>

theorem counters_stay_ordered:
  "(statistics th = ThrottlingStatistics t0 \<and> capture_loop es th w = Some (e, th', w')
      \<longrightarrow> 0 \<le> dropped_packets (statistics th')
          \<and> dropped_packets (statistics th') \<le> throttled_packets (statistics th')
          \<and> throttled_packets (statistics th') \<le> processed_packets (statistics th'))
   \<and> (process_packet pkt th1 w1 = Some (e1, th2, w2)
      \<longrightarrow> processed_packets (statistics th2) = processed_packets (statistics th1) + 1
          \<and> (throttled_packets (statistics th2) = throttled_packets (statistics th1)
               \<and> dropped_packets (statistics th2) = dropped_packets (statistics th1)
             \<or> throttled_packets (statistics th2) = throttled_packets (statistics th1) + 1
               \<and> (dropped_packets (statistics th2) = dropped_packets (statistics th1)
                  \<or> dropped_packets (statistics th2) = dropped_packets (statistics th1) + 1)))
   \<and> (capture_loop es3 th3 w3 = Some (e3, th4, w4)
          \<and> dropped_packets (statistics th3) \<le> throttled_packets (statistics th3)
          \<and> throttled_packets (statistics th3) \<le> processed_packets (statistics th3)
          \<and> 0 \<le> dropped_packets (statistics th3)
      \<longrightarrow> processed_packets (statistics th3) \<le> processed_packets (statistics th4)
          \<and> throttled_packets (statistics th3) \<le> throttled_packets (statistics th4)
          \<and> dropped_packets (statistics th3) \<le> dropped_packets (statistics th4))"
proof (intro conjI impI)
  assume a: "statistics th = ThrottlingStatistics t0 \<and> capture_loop es th w = Some (e, th', w')"
  then have "counters_ordered (statistics th)"
    by (simp add: counters_ordered_def ThrottlingStatistics_def)
  with a have "counters_ordered (statistics th')"
    using capture_loop_counters by blast
  then show "0 \<le> dropped_packets (statistics th')"
    "dropped_packets (statistics th') \<le> throttled_packets (statistics th')"
    "throttled_packets (statistics th') \<le> processed_packets (statistics th')"
    by (simp_all add: counters_ordered_def)
next
  assume "process_packet pkt th1 w1 = Some (e1, th2, w2)"
  from process_packet_step [OF this]
  show "processed_packets (statistics th2) = processed_packets (statistics th1) + 1"
    and "throttled_packets (statistics th2) = throttled_packets (statistics th1)
               \<and> dropped_packets (statistics th2) = dropped_packets (statistics th1)
             \<or> throttled_packets (statistics th2) = throttled_packets (statistics th1) + 1
               \<and> (dropped_packets (statistics th2) = dropped_packets (statistics th1)
                  \<or> dropped_packets (statistics th2) = dropped_packets (statistics th1) + 1)"
    by (simp_all add: packet_step_def)
next
  assume c: "capture_loop es3 th3 w3 = Some (e3, th4, w4)
          \<and> dropped_packets (statistics th3) \<le> throttled_packets (statistics th3)
          \<and> throttled_packets (statistics th3) \<le> processed_packets (statistics th3)
          \<and> 0 \<le> dropped_packets (statistics th3)"
  then have "counters_ordered (statistics th3)" by (simp add: counters_ordered_def)
  with c have "counters_le (statistics th3) (statistics th4)"
    using capture_loop_counters by blast
  then show "processed_packets (statistics th3) \<le> processed_packets (statistics th4)"
    "throttled_packets (statistics th3) \<le> throttled_packets (statistics th4)"
    "dropped_packets (statistics th3) \<le> dropped_packets (statistics th4)"
    by (simp_all add: counters_le_def)
qed


text \<open>
  The witness: the session of four packets ends with 4 processed, 2 throttled, 1 dropped.
\<close>

lemma session_run:
  "capture_loop session_events session_throttler session_world
     = Some (None, session_final, session_final_world)"
  by (simp add: session_events_def session_world_def session_throttler_def session_final_def
        session_final_world_def scenario_defs run_defs)

lemma session_first:
  "process_packet small_packet session_throttler session_world
     = Some (None,
             session_throttler\<lparr>statistics := increment_processed (statistics session_throttler)\<rparr>,
             session_world\<lparr>trace := [Send small_packet]\<rparr>)"
  by (simp add: session_world_def session_throttler_def scenario_defs run_defs)

theorem counters_stay_ordered_witness:
  "statistics session_throttler = ThrottlingStatistics 0
   \<and> capture_loop session_events session_throttler session_world
       = Some (None, session_final, session_final_world)
   \<and> statistics session_final
       = \<lparr>processed_packets = 4, throttled_packets = 2, dropped_packets = 1, start_time = 0\<rparr>
   \<and> 0 \<le> dropped_packets (statistics session_final)
   \<and> dropped_packets (statistics session_final) \<le> throttled_packets (statistics session_final)
   \<and> throttled_packets (statistics session_final) \<le> processed_packets (statistics session_final)
   \<and> process_packet small_packet session_throttler session_world
       = Some (None,
               session_throttler\<lparr>statistics := increment_processed (statistics session_throttler)\<rparr>,
               session_world\<lparr>trace := [Send small_packet]\<rparr>)
   \<and> processed_packets (increment_processed (statistics session_throttler))
       = processed_packets (statistics session_throttler) + 1
   \<and> processed_packets (statistics session_throttler)
       \<le> processed_packets (statistics session_final)"
proof -
  have fresh: "statistics session_throttler = ThrottlingStatistics 0"
    by (simp add: session_throttler_def scenario_defs time_time_def)
  have final: "statistics session_final
       = \<lparr>processed_packets = 4, throttled_packets = 2, dropped_packets = 1, start_time = 0\<rparr>"
    by (simp add: session_final_def)
  have zero: "dropped_packets (statistics session_throttler) \<le> throttled_packets (statistics session_throttler)"
    "throttled_packets (statistics session_throttler) \<le> processed_packets (statistics session_throttler)"
    "0 \<le> dropped_packets (statistics session_throttler)"
    by (simp_all add: fresh ThrottlingStatistics_def)
  show ?thesis
    using counters_stay_ordered
      [of session_throttler 0 session_events session_world None session_final session_final_world
          small_packet session_throttler session_world None
          "session_throttler\<lparr>statistics := increment_processed (statistics session_throttler)\<rparr>"
          "session_world\<lparr>trace := [Send small_packet]\<rparr>"
          session_events session_throttler session_world None session_final session_final_world]
      fresh final zero session_run session_first
    by simp
qed



section \<open>Properties of shutdown\<close>

text \<open>
  \<^verbatim>\<open>shutdown\<close> sets the shutdown flag and stops the key listener. Called on the listener
  thread itself (as the callback of the exit key is) it ends there, in the RuntimeError of
  \<^verbatim>\<open>join\<close>; otherwise it goes on to log the final statistics: one more report.
\<close>

lemma final_reports_append: "final_reports (xs @ ys) = final_reports xs + final_reports ys"
  by (simp add: final_reports_def)

lemma log_final_stats_reports:
  "final_reports (trace (log_final_stats s w)) = final_reports (trace w) + 1"
  by (simp add: log_final_stats_def statistics_get_stats_def time_time_def emit_def
        final_reports_def Let_def split: prod.splits)

lemma shutdown_state:
  "shutdown c th w = (e, th', w') \<Longrightarrow>
     th' = th\<lparr>shutdown_event := True,
              keyboard_handler := (keyboard_handler th)\<lparr>running := False\<rparr>\<rparr>
     \<and> (e = None) = (\<not> (thread (keyboard_handler th) \<and> c = Listener_thread))
     \<and> final_reports (trace w') = final_reports (trace w) + (if e = None then 1 else 0)"
  by (auto simp: shutdown_def stop_def Let_def log_final_stats_reports split: if_splits)

text \<open>
  C7, as the claim states it, fails: \<^verbatim>\<open>shutdown\<close> called twice on the main thread returns
  normally both times, leaves the same state as one call, and has logged the final
  statistics twice.
\<close>

theorem shutdown_report_counterexample:
  "(case shutdown Main_thread running_throttler (quiet_world [5, 7] 9) of
      (e1, th1, w1) \<Rightarrow>
        (case shutdown Main_thread th1 w1 of
           (e2, th2, w2) \<Rightarrow> (e1, e2, th2 = th1, final_reports (trace w1), final_reports (trace w2))))
   = (None, None, True, 1, 2)"
  by (simp add: shutdown_def stop_def running_throttler_def scenario_defs time_time_def
        log_final_stats_def statistics_get_stats_def emit_def final_reports_def Let_def)

text \<open>
  C7, amended: invoking \<^verbatim>\<open>shutdown\<close> twice leaves the same state as invoking it once
  (the shutdown flag set, the key listener stopped, nothing else changed); every invocation
  that completes, which is every invocation but one made on the started listener thread,
  logs one final statistics report of its own, so that two completed invocations log two
  reports.
\<close>

theorem shutdown_twice:
  assumes "shutdown c1 th w = (e1, th1, w1)" and "shutdown c2 th1 w1 = (e2, th2, w2)"
  shows "th2 = th1 \<and> shutdown_event th1 \<and> \<not> running (keyboard_handler th1)
     \<and> (e1 = None) = (\<not> (thread (keyboard_handler th) \<and> c1 = Listener_thread))
     \<and> (e2 = None) = (\<not> (thread (keyboard_handler th) \<and> c2 = Listener_thread))
     \<and> final_reports (trace w1) = final_reports (trace w) + (if e1 = None then 1 else 0)
     \<and> final_reports (trace w2) = final_reports (trace w1) + (if e2 = None then 1 else 0)"
  using shutdown_state [OF assms(1)] shutdown_state [OF assms(2)]
  by simp

theorem shutdown_twice_witness:
  "shutdown Main_thread running_throttler (quiet_world [5, 7] 9)
     = (None, stopped_throttler,
        log_final_stats (statistics running_throttler) (quiet_world [5, 7] 9))
   \<and> shutdown Main_thread stopped_throttler
         (log_final_stats (statistics running_throttler) (quiet_world [5, 7] 9))
     = (None, stopped_throttler,
        log_final_stats (statistics stopped_throttler)
          (log_final_stats (statistics running_throttler) (quiet_world [5, 7] 9)))
   \<and> shutdown_event stopped_throttler \<and> \<not> running (keyboard_handler stopped_throttler)
   \<and> final_reports (trace (log_final_stats (statistics stopped_throttler)
          (log_final_stats (statistics running_throttler) (quiet_world [5, 7] 9))))
       = final_reports (trace (quiet_world [5, 7] 9)) + 2"
proof -
  let ?w1 = "log_final_stats (statistics running_throttler) (quiet_world [5, 7] 9)"
  let ?w2 = "log_final_stats (statistics stopped_throttler) ?w1"
  have a: "shutdown Main_thread running_throttler (quiet_world [5, 7] 9)
     = (None, stopped_throttler, ?w1)"
    by (simp add: shutdown_def stop_def stopped_throttler_def running_throttler_def
          scenario_defs time_time_def Let_def)
  have b: "shutdown Main_thread stopped_throttler ?w1 = (None, stopped_throttler, ?w2)"
    by (simp add: shutdown_def stop_def stopped_throttler_def running_throttler_def
          scenario_defs time_time_def Let_def)
  from shutdown_twice [OF a b] a b show ?thesis by simp
qed

text \<open>
  The exit key pressed during capture: the listener thread runs \<^verbatim>\<open>shutdown\<close>, which ends
  in the RuntimeError before the report (the listener catches it); the \<^verbatim>\<open>finally\<close> of
  \<^verbatim>\<open>run\<close> then calls \<^verbatim>\<open>shutdown\<close> on the main thread, which logs the only report.
\<close>

lemma exit_key_then_finally:
  "(case keyboard_listener ''esc'' running_throttler (quiet_world [5, 7] 9) of
      (th1, w1) \<Rightarrow>
        (case shutdown Main_thread th1 w1 of
           (e2, th2, w2) \<Rightarrow> (th1 = stopped_throttler, final_reports (trace w1), e2,
                               th2 = th1, final_reports (trace w2))))
   = (True, 0, None, True, 1)"
  by (simp add: keyboard_listener_def shutdown_def stop_def stopped_throttler_def
        running_throttler_def scenario_defs time_time_def log_final_stats_def
        statistics_get_stats_def emit_def final_reports_def Let_def)


section \<open>Properties of the capture filter\<close>

text \<open>How integers and filters are rendered.\<close>

lemma str_nat_examples:
  "str_nat 80 = ''80''" "str_nat 443 = ''443''" "str_nat 0 = ''0''"
  "str_int 49000 = ''49000''" "str_int 65000 = ''65000''" "str_int (- 7) = ''-7''"
  by (simp_all add: str_int_def str_nat.simps)

lemma filter_examples:
  "precise_filter [80, 443] =
     ''(tcp or udp) and (tcp.SrcPort == 80 or tcp.DstPort == 80 or udp.SrcPort == 80 or udp.DstPort == 80 or tcp.SrcPort == 443 or tcp.DstPort == 443 or udp.SrcPort == 443 or udp.DstPort == 443)''"
  "range_filter 49000 65000 =
     ''(tcp or udp) and ((tcp.DstPort >= 49000 and tcp.DstPort <= 65000) or (udp.DstPort >= 49000 and udp.DstPort <= 65000))''"
  by (simp_all add: precise_filter_def port_condition_def range_filter_def str_nat_examples)

text \<open>
  The precise filter of a non-empty port list and the range filter are different strings:
  they differ in their nineteenth character.
\<close>

lemma precise_filter_starts:
  assumes "ps \<noteq> []"
  shows "\<exists>rest. precise_filter ps = ''(tcp or udp) and (t'' @ rest"
proof (cases ps)
  case Nil
  with assms show ?thesis by simp
next
  case (Cons p qs)
  then show ?thesis
    by (cases qs) (simp_all add: precise_filter_def port_condition_def)
qed

lemma port_condition_eta:
  "port_condition =
     (\<lambda>p. ''tcp.SrcPort == '' @ str_nat p @ '' or tcp.DstPort == '' @ str_nat p @
          '' or udp.SrcPort == '' @ str_nat p @ '' or udp.DstPort == '' @ str_nat p)"
  by (rule ext) (simp add: port_condition_def)

lemma precise_not_range: "ps \<noteq> [] \<Longrightarrow> precise_filter ps \<noteq> range_filter a b"
  using precise_filter_starts [of ps] by (auto simp: range_filter_def)

text \<open>
  C4: for every port set (a list without repetition, in iteration order): if the set is
  non-empty and has at most 20 elements, the filter built is the precise filter:
  \<^verbatim>\<open>(tcp or udp) and (...)\<close> around the disjunction, over the ports \<open>p\<close> of the set, of
  \<^verbatim>\<open>tcp.SrcPort == p or tcp.DstPort == p or udp.SrcPort == p or udp.DstPort == p\<close>. If the
  set is empty or has more than 20 elements, the filter built is the range filter:
  \<^verbatim>\<open>(tcp or udp) and ((tcp.DstPort >= start and tcp.DstPort <= end) or (udp.DstPort >= start
  and udp.DstPort <= end))\<close> with the configured \<open>port_range_start\<close> and \<open>port_range_end\<close>.
  In particular 20 ports give the precise filter and 21 ports give the range filter; the
  two are never the same string.
\<close>

theorem filter_by_port_count:
  assumes "distinct (target_ports th)"
  shows "(let precise =
            ''(tcp or udp) and ('' @
              join '' or ''
                (map (\<lambda>p. ''tcp.SrcPort == '' @ str_nat p @ '' or tcp.DstPort == '' @ str_nat p @
                          '' or udp.SrcPort == '' @ str_nat p @ '' or udp.DstPort == '' @ str_nat p)
                   (target_ports th)) @
              '')'';
          range =
            ''(tcp or udp) and ((tcp.DstPort >= '' @ str_int (port_range_start (config th)) @
              '' and tcp.DstPort <= '' @ str_int (port_range_end (config th)) @
              '') or (udp.DstPort >= '' @ str_int (port_range_start (config th)) @
              '' and udp.DstPort <= '' @ str_int (port_range_end (config th)) @ ''))''
      in filter_str th =
           (if set (target_ports th) \<noteq> {} \<and> card (set (target_ports th)) \<le> 20
            then precise else range)
         \<and> (card (set (target_ports th)) = 20 \<longrightarrow> filter_str th = precise)
         \<and> (card (set (target_ports th)) = 21 \<longrightarrow> filter_str th = range)
         \<and> (set (target_ports th) \<noteq> {} \<longrightarrow> precise \<noteq> range))"
proof -
  define precise where "precise =
            ''(tcp or udp) and ('' @
              join '' or ''
                (map (\<lambda>p. ''tcp.SrcPort == '' @ str_nat p @ '' or tcp.DstPort == '' @ str_nat p @
                          '' or udp.SrcPort == '' @ str_nat p @ '' or udp.DstPort == '' @ str_nat p)
                   (target_ports th)) @
              '')''"
  define range where "range =
            ''(tcp or udp) and ((tcp.DstPort >= '' @ str_int (port_range_start (config th)) @
              '' and tcp.DstPort <= '' @ str_int (port_range_end (config th)) @
              '') or (udp.DstPort >= '' @ str_int (port_range_start (config th)) @
              '' and udp.DstPort <= '' @ str_int (port_range_end (config th)) @ ''))''"
  have P: "precise_filter (target_ports th) = precise"
    by (simp add: precise_def precise_filter_def port_condition_eta)
  have R: "range_filter (port_range_start (config th)) (port_range_end (config th)) = range"
    by (simp add: range_def range_filter_def)
  have main: "filter_str th =
           (if set (target_ports th) \<noteq> {} \<and> card (set (target_ports th)) \<le> 20
            then precise else range)"
    using assms by (simp add: filter_str_def Let_def distinct_card P R)
  have differ: "set (target_ports th) \<noteq> {} \<longrightarrow> precise \<noteq> range"
    using precise_not_range [of "target_ports th" "port_range_start (config th)"
        "port_range_end (config th)"]
    by (simp add: P R)
  have "filter_str th =
           (if set (target_ports th) \<noteq> {} \<and> card (set (target_ports th)) \<le> 20
            then precise else range)
         \<and> (card (set (target_ports th)) = 20 \<longrightarrow> filter_str th = precise)
         \<and> (card (set (target_ports th)) = 21 \<longrightarrow> filter_str th = range)
         \<and> (set (target_ports th) \<noteq> {} \<longrightarrow> precise \<noteq> range)"
    using main differ by auto
  then show ?thesis
    unfolding Let_def precise_def range_def .
qed

text \<open>
  The witness: two ports and twenty ports give the precise filter, no port and twenty-one
  ports give the range filter of the default range, each as the text the program builds.
\<close>

theorem filter_by_port_count_witness:
  "distinct (target_ports (ports_throttler [50000..<50020]))
   \<and> card (set (target_ports (ports_throttler [50000..<50020]))) = 20
   \<and> filter_str (ports_throttler [50000..<50020]) =
       ''(tcp or udp) and (tcp.SrcPort == 50000 or tcp.DstPort == 50000 or udp.SrcPort '' @
       ''== 50000 or udp.DstPort == 50000 or tcp.SrcPort == 50001 or tcp.DstPort == 500'' @
       ''01 or udp.SrcPort == 50001 or udp.DstPort == 50001 or tcp.SrcPort == 50002 or '' @
       ''tcp.DstPort == 50002 or udp.SrcPort == 50002 or udp.DstPort == 50002 or tcp.Sr'' @
       ''cPort == 50003 or tcp.DstPort == 50003 or udp.SrcPort == 50003 or udp.DstPort '' @
       ''== 50003 or tcp.SrcPort == 50004 or tcp.DstPort == 50004 or udp.SrcPort == 500'' @
       ''04 or udp.DstPort == 50004 or tcp.SrcPort == 50005 or tcp.DstPort == 50005 or '' @
       ''udp.SrcPort == 50005 or udp.DstPort == 50005 or tcp.SrcPort == 50006 or tcp.Ds'' @
       ''tPort == 50006 or udp.SrcPort == 50006 or udp.DstPort == 50006 or tcp.SrcPort '' @
       ''== 50007 or tcp.DstPort == 50007 or udp.SrcPort == 50007 or udp.DstPort == 500'' @
       ''07 or tcp.SrcPort == 50008 or tcp.DstPort == 50008 or udp.SrcPort == 50008 or '' @
       ''udp.DstPort == 50008 or tcp.SrcPort == 50009 or tcp.DstPort == 50009 or udp.Sr'' @
       ''cPort == 50009 or udp.DstPort == 50009 or tcp.SrcPort == 50010 or tcp.DstPort '' @
       ''== 50010 or udp.SrcPort == 50010 or udp.DstPort == 50010 or tcp.SrcPort == 500'' @
       ''11 or tcp.DstPort == 50011 or udp.SrcPort == 50011 or udp.DstPort == 50011 or '' @
       ''tcp.SrcPort == 50012 or tcp.DstPort == 50012 or udp.SrcPort == 50012 or udp.Ds'' @
       ''tPort == 50012 or tcp.SrcPort == 50013 or tcp.DstPort == 50013 or udp.SrcPort '' @
       ''== 50013 or udp.DstPort == 50013 or tcp.SrcPort == 50014 or tcp.DstPort == 500'' @
       ''14 or udp.SrcPort == 50014 or udp.DstPort == 50014 or tcp.SrcPort == 50015 or '' @
       ''tcp.DstPort == 50015 or udp.SrcPort == 50015 or udp.DstPort == 50015 or tcp.Sr'' @
       ''cPort == 50016 or tcp.DstPort == 50016 or udp.SrcPort == 50016 or udp.DstPort '' @
       ''== 50016 or tcp.SrcPort == 50017 or tcp.DstPort == 50017 or udp.SrcPort == 500'' @
       ''17 or udp.DstPort == 50017 or tcp.SrcPort == 50018 or tcp.DstPort == 50018 or '' @
       ''udp.SrcPort == 50018 or udp.DstPort == 50018 or tcp.SrcPort == 50019 or tcp.Ds'' @
       ''tPort == 50019 or udp.SrcPort == 50019 or udp.DstPort == 50019)''
   \<and> distinct (target_ports (ports_throttler [50000..<50021]))
   \<and> card (set (target_ports (ports_throttler [50000..<50021]))) = 21
   \<and> filter_str (ports_throttler [50000..<50021]) =
       ''(tcp or udp) and ((tcp.DstPort >= 49000 and tcp.DstPort <= 65000) or (udp.DstP'' @
       ''ort >= 49000 and udp.DstPort <= 65000))''
   \<and> filter_str (ports_throttler []) =
       ''(tcp or udp) and ((tcp.DstPort >= 49000 and tcp.DstPort <= 65000) or (udp.DstP'' @
       ''ort >= 49000 and udp.DstPort <= 65000))''
   \<and> filter_str (ports_throttler [80, 443]) =
       ''(tcp or udp) and (tcp.SrcPort == 80 or tcp.DstPort == 80 or udp.SrcPort == 80 '' @
       ''or udp.DstPort == 80 or tcp.SrcPort == 443 or tcp.DstPort == 443 or udp.SrcPor'' @
       ''t == 443 or udp.DstPort == 443)''"
proof -
  have d20: "distinct (target_ports (ports_throttler [50000..<50020]))"
    and d21: "distinct (target_ports (ports_throttler [50000..<50021]))"
    and d0: "distinct (target_ports (ports_throttler []))"
    and d2: "distinct (target_ports (ports_throttler [80, 443]))"
    by (simp_all add: ports_throttler_def)
  have c20: "card (set (target_ports (ports_throttler [50000..<50020]))) = 20"
    and c21: "card (set (target_ports (ports_throttler [50000..<50021]))) = 21"
    by (simp_all add: ports_throttler_def)
  have cfg: "port_range_start (config (ports_throttler ps)) = 49000"
    "port_range_end (config (ports_throttler ps)) = 65000" for ps
    by (simp_all add: ports_throttler_def scenario_defs time_time_def)
  have ports: "target_ports (ports_throttler [80, 443]) = [80, 443]"
    "target_ports (ports_throttler []) = []"
    by (simp_all add: ports_throttler_def)
  have twenty: "target_ports (ports_throttler [50000..<50020]) =
      [50000, 50001, 50002, 50003, 50004, 50005, 50006, 50007, 50008, 50009,
       50010, 50011, 50012, 50013, 50014, 50015, 50016, 50017, 50018, 50019]"
    by (simp add: ports_throttler_def upt_rec)
  have nums: "str_int 49000 = ''49000''" "str_int 65000 = ''65000''"
    "str_nat 80 = ''80''" "str_nat 443 = ''443''"
    by (simp_all add: str_int_def str_nat.simps)
  have more: "str_nat 50000 = ''50000''" "str_nat 50001 = ''50001''" "str_nat 50002 = ''50002''"
    "str_nat 50003 = ''50003''" "str_nat 50004 = ''50004''" "str_nat 50005 = ''50005''"
    "str_nat 50006 = ''50006''" "str_nat 50007 = ''50007''" "str_nat 50008 = ''50008''"
    "str_nat 50009 = ''50009''" "str_nat 50010 = ''50010''" "str_nat 50011 = ''50011''"
    "str_nat 50012 = ''50012''" "str_nat 50013 = ''50013''" "str_nat 50014 = ''50014''"
    "str_nat 50015 = ''50015''" "str_nat 50016 = ''50016''" "str_nat 50017 = ''50017''"
    "str_nat 50018 = ''50018''" "str_nat 50019 = ''50019''"
    by (simp_all add: str_nat.simps)
  have f20: "filter_str (ports_throttler [50000..<50020]) =
       ''(tcp or udp) and (tcp.SrcPort == 50000 or tcp.DstPort == 50000 or udp.SrcPort '' @
       ''== 50000 or udp.DstPort == 50000 or tcp.SrcPort == 50001 or tcp.DstPort == 500'' @
       ''01 or udp.SrcPort == 50001 or udp.DstPort == 50001 or tcp.SrcPort == 50002 or '' @
       ''tcp.DstPort == 50002 or udp.SrcPort == 50002 or udp.DstPort == 50002 or tcp.Sr'' @
       ''cPort == 50003 or tcp.DstPort == 50003 or udp.SrcPort == 50003 or udp.DstPort '' @
       ''== 50003 or tcp.SrcPort == 50004 or tcp.DstPort == 50004 or udp.SrcPort == 500'' @
       ''04 or udp.DstPort == 50004 or tcp.SrcPort == 50005 or tcp.DstPort == 50005 or '' @
       ''udp.SrcPort == 50005 or udp.DstPort == 50005 or tcp.SrcPort == 50006 or tcp.Ds'' @
       ''tPort == 50006 or udp.SrcPort == 50006 or udp.DstPort == 50006 or tcp.SrcPort '' @
       ''== 50007 or tcp.DstPort == 50007 or udp.SrcPort == 50007 or udp.DstPort == 500'' @
       ''07 or tcp.SrcPort == 50008 or tcp.DstPort == 50008 or udp.SrcPort == 50008 or '' @
       ''udp.DstPort == 50008 or tcp.SrcPort == 50009 or tcp.DstPort == 50009 or udp.Sr'' @
       ''cPort == 50009 or udp.DstPort == 50009 or tcp.SrcPort == 50010 or tcp.DstPort '' @
       ''== 50010 or udp.SrcPort == 50010 or udp.DstPort == 50010 or tcp.SrcPort == 500'' @
       ''11 or tcp.DstPort == 50011 or udp.SrcPort == 50011 or udp.DstPort == 50011 or '' @
       ''tcp.SrcPort == 50012 or tcp.DstPort == 50012 or udp.SrcPort == 50012 or udp.Ds'' @
       ''tPort == 50012 or tcp.SrcPort == 50013 or tcp.DstPort == 50013 or udp.SrcPort '' @
       ''== 50013 or udp.DstPort == 50013 or tcp.SrcPort == 50014 or tcp.DstPort == 500'' @
       ''14 or udp.SrcPort == 50014 or udp.DstPort == 50014 or tcp.SrcPort == 50015 or '' @
       ''tcp.DstPort == 50015 or udp.SrcPort == 50015 or udp.DstPort == 50015 or tcp.Sr'' @
       ''cPort == 50016 or tcp.DstPort == 50016 or udp.SrcPort == 50016 or udp.DstPort '' @
       ''== 50016 or tcp.SrcPort == 50017 or tcp.DstPort == 50017 or udp.SrcPort == 500'' @
       ''17 or udp.DstPort == 50017 or tcp.SrcPort == 50018 or tcp.DstPort == 50018 or '' @
       ''udp.SrcPort == 50018 or udp.DstPort == 50018 or tcp.SrcPort == 50019 or tcp.Ds'' @
       ''tPort == 50019 or udp.SrcPort == 50019 or udp.DstPort == 50019)''"
    using filter_by_port_count [OF d20] c20 unfolding twenty
    by (simp add: Let_def more)
  have f21: "filter_str (ports_throttler [50000..<50021]) =
       ''(tcp or udp) and ((tcp.DstPort >= 49000 and tcp.DstPort <= 65000) or (udp.DstP'' @
       ''ort >= 49000 and udp.DstPort <= 65000))''"
    using filter_by_port_count [OF d21] c21
    by (simp add: Let_def cfg nums)
  have f0: "filter_str (ports_throttler []) =
       ''(tcp or udp) and ((tcp.DstPort >= 49000 and tcp.DstPort <= 65000) or (udp.DstP'' @
       ''ort >= 49000 and udp.DstPort <= 65000))''"
    using filter_by_port_count [OF d0]
    by (simp add: Let_def cfg nums ports)
  have f2: "filter_str (ports_throttler [80, 443]) =
       ''(tcp or udp) and (tcp.SrcPort == 80 or tcp.DstPort == 80 or udp.SrcPort == 80 '' @
       ''or udp.DstPort == 80 or tcp.SrcPort == 443 or tcp.DstPort == 443 or udp.SrcPor'' @
       ''t == 443 or udp.DstPort == 443)''"
    using filter_by_port_count [OF d2]
    by (simp add: Let_def nums ports)
  from d20 c20 f20 d21 c21 f21 f0 f2 show ?thesis by blast
qed

text \<open>
  C3: when the first open, with the precise filter (the port set is non-empty and has at
  most 20 ports), fails with a message containing \<^verbatim>\<open>parameter is incorrect\<close>, the second
  attempt is the precise filter of the first 5 ports (at most 5, all of them ports of the
  set); if it opens, capture starts on it. If it fails, the third attempt is
  \<^verbatim>\<open>tcp or udp\<close>; if it opens, capture starts on it. Only if it fails too is an exception
  raised (the one of the first attempt) and capture does not start. The trace holds the
  attempts in exactly this order.
\<close>

theorem capture_escalation:
  assumes "target_ports th \<noteq> []" and "length (target_ports th) \<le> 20"
    and "shd (opens w) = Open_raises msg" and "contains ''parameter is incorrect'' msg"
  shows "packet_capture_context th w =
     (let precise = precise_filter (target_ports th);
          simple = precise_filter (take 5 (target_ports th));
          basic = ''tcp or udp''
      in case shd (stl (opens w)) of
           Opened \<Rightarrow>
             (Inr simple,
              w\<lparr>opens := stl (stl (opens w)),
                trace := trace w @ [Open_capture precise, Open_capture simple]\<rparr>)
         | Open_raises msg2 \<Rightarrow>
             (case shd (stl (stl (opens w))) of
                Opened \<Rightarrow>
                  (Inr basic,
                   w\<lparr>opens := stl (stl (stl (opens w))),
                     trace := trace w @ [Open_capture precise, Open_capture simple,
                                         Open_capture basic]\<rparr>)
              | Open_raises msg3 \<Rightarrow>
                  (Inl (WinDivert_error msg),
                   w\<lparr>opens := stl (stl (stl (opens w))),
                     trace := trace w @ [Open_capture precise, Open_capture simple,
                                         Open_capture basic]\<rparr>)))
     \<and> length (take 5 (target_ports th)) \<le> 5
     \<and> set (take 5 (target_ports th)) \<subseteq> set (target_ports th)"
  using assms
  by (auto simp: packet_capture_context_def filter_str_def WinDivert_def Let_def
        split: open_result.splits dest: in_set_takeD)


theorem capture_escalation_witness:
  "target_ports web_throttler \<noteq> [] \<and> length (target_ports web_throttler) \<le> 20
   \<and> shd (opens rejecting_world) = Open_raises ''[WinError 87] The parameter is incorrect''
   \<and> contains ''parameter is incorrect'' ''[WinError 87] The parameter is incorrect''
   \<and> packet_capture_context web_throttler rejecting_world
       = (Inr ''tcp or udp'',
          rejecting_world
            \<lparr>opens := sconst Opened,
             trace := [Open_capture (precise_filter [80, 443, 8080, 8443, 53, 123, 5353]),
                       Open_capture (precise_filter [80, 443, 8080, 8443, 53]),
                       Open_capture ''tcp or udp'']\<rparr>)"
proof -
  have a: "target_ports web_throttler \<noteq> []" "length (target_ports web_throttler) \<le> 20"
    by (simp_all add: web_throttler_def)
  have b: "shd (opens rejecting_world) = Open_raises ''[WinError 87] The parameter is incorrect''"
    by (simp add: rejecting_world_def)
  have c: "contains ''parameter is incorrect'' ''[WinError 87] The parameter is incorrect''"
    by simp
  from capture_escalation [OF a b c] a b c show ?thesis
    by (simp add: web_throttler_def rejecting_world_def quiet_world_def Let_def)
qed



section \<open>Properties of target resolution\<close>

text \<open>
  When the connections can be read, \<^verbatim>\<open>get_process_ports\<close> returns the local and remote
  ports of all of them, a finite set.
\<close>

lemma foldl_add_conn:
  "foldl add_conn S cs =
     S \<union> (\<Union>c\<in>set cs. port ` (set_option (laddr c) \<union> set_option (raddr c)))"
  by (induction cs arbitrary: S) (auto simp: add_conn_def Let_def split: option.splits)

lemma get_process_ports_connections:
  assumes "psutil pid = Inr cs"
  shows "get_process_ports psutil pid =
           (\<Union>c\<in>set cs. port ` (set_option (laddr c) \<union> set_option (raddr c)))"
  using assms by (simp add: get_process_ports_def foldl_add_conn)

lemma get_process_ports_finite: "finite (get_process_ports psutil pid)"
  by (cases "psutil pid")
     (auto simp: get_process_ports_def foldl_add_conn split: error.splits)

lemma chrome_found: "find_process_by_name ascii_lower chrome_procs ''chrome'' = Inr 812"
  by (simp add: chrome_procs_def ascii_lower_def ascii_lower_char_def)

text \<open>
  C8: for every process id, when enumerating its connections raises (the process has
  vanished: \<open>NoSuchProcess\<close>; access is denied: \<open>AccessDenied\<close>; or any other exception),
  \<^verbatim>\<open>get_process_ports\<close> returns the empty set instead of raising;
  \<^verbatim>\<open>_initialize_target_process\<close> then returns normally with the process id and no ports,
  and the capture is opened with the fallback port-range filter, whose text is
  \<^verbatim>\<open>(tcp or udp) and ((tcp.DstPort >= start and tcp.DstPort <= end) or (udp.DstPort >= start
  and udp.DstPort <= end))\<close> with the configured \<open>port_range_start\<close> and \<open>port_range_end\<close>.
  (\<open>iter_order {} = []\<close>: iterating the empty set gives no port.)
\<close>

theorem port_enumeration_failure_not_fatal:
  assumes "psutil pid = Inl e"
    and "find_process_by_name str_lower procs (process_name_substring (config th)) = Inr pid"
    and "iter_order {} = []"
  shows "(let fallback =
            ''(tcp or udp) and ((tcp.DstPort >= '' @ str_int (port_range_start (config th)) @
              '' and tcp.DstPort <= '' @ str_int (port_range_end (config th)) @
              '') or (udp.DstPort >= '' @ str_int (port_range_start (config th)) @
              '' and udp.DstPort <= '' @ str_int (port_range_end (config th)) @ ''))'';
          th1 = th\<lparr>target_pid := Some pid, target_ports := []\<rparr>
      in get_process_ports psutil pid = {}
         \<and> initialize_target_process str_lower iter_order procs psutil th = (None, th1)
         \<and> filter_str (setup_keyboard_handler th1) = fallback
         \<and> (shd (opens w) = Opened \<longrightarrow>
              packet_capture_context (setup_keyboard_handler th1) w
                = (Inr fallback,
                   w\<lparr>opens := stl (opens w), trace := trace w @ [Open_capture fallback]\<rparr>)))"
proof -
  define fallback where "fallback =
            ''(tcp or udp) and ((tcp.DstPort >= '' @ str_int (port_range_start (config th)) @
              '' and tcp.DstPort <= '' @ str_int (port_range_end (config th)) @
              '') or (udp.DstPort >= '' @ str_int (port_range_start (config th)) @
              '' and udp.DstPort <= '' @ str_int (port_range_end (config th)) @ ''))''"
  define th1 where "th1 = th\<lparr>target_pid := Some pid, target_ports := []\<rparr>"
  have ports: "get_process_ports psutil pid = {}"
    using assms(1) by (cases e) (simp_all add: get_process_ports_def)
  have init: "initialize_target_process str_lower iter_order procs psutil th = (None, th1)"
    using ports assms(2,3) by (simp add: initialize_target_process_def th1_def)
  have f: "filter_str (setup_keyboard_handler th1) = fallback"
    by (simp add: filter_str_def setup_keyboard_handler_def range_filter_def Let_def
          th1_def fallback_def)
  have "shd (opens w) = Opened \<longrightarrow>
          packet_capture_context (setup_keyboard_handler th1) w
            = (Inr fallback,
               w\<lparr>opens := stl (opens w), trace := trace w @ [Open_capture fallback]\<rparr>)"
    by (simp add: packet_capture_context_def WinDivert_def f)
  with ports init f have
    "get_process_ports psutil pid = {}
         \<and> initialize_target_process str_lower iter_order procs psutil th = (None, th1)
         \<and> filter_str (setup_keyboard_handler th1) = fallback
         \<and> (shd (opens w) = Opened \<longrightarrow>
              packet_capture_context (setup_keyboard_handler th1) w
                = (Inr fallback,
                   w\<lparr>opens := stl (opens w), trace := trace w @ [Open_capture fallback]\<rparr>))"
    by blast
  then show ?thesis
    unfolding Let_def fallback_def th1_def .
qed

text \<open>
  The witness: the target is found in the process list, its connections cannot be read
  (access denied, or the process is gone): no ports, and the capture opens on the range
  filter of the default range, given as the text the program builds.
\<close>

theorem port_enumeration_failure_not_fatal_witness:
  "denied_psutil 812 = Inl AccessDenied \<and> vanished_psutil 812 = Inl NoSuchProcess
   \<and> find_process_by_name ascii_lower chrome_procs
         (process_name_substring (config chrome_throttler)) = Inr 812
   \<and> sorted_list_of_set ({} :: nat set) = []
   \<and> get_process_ports denied_psutil 812 = {}
   \<and> get_process_ports vanished_psutil 812 = {}
   \<and> initialize_target_process ascii_lower sorted_list_of_set chrome_procs denied_psutil
         chrome_throttler
       = (None, chrome_throttler\<lparr>target_pid := Some 812, target_ports := []\<rparr>)
   \<and> initialize_target_process ascii_lower sorted_list_of_set chrome_procs vanished_psutil
         chrome_throttler
       = (None, chrome_throttler\<lparr>target_pid := Some 812, target_ports := []\<rparr>)
   \<and> packet_capture_context
         (setup_keyboard_handler (chrome_throttler\<lparr>target_pid := Some 812, target_ports := []\<rparr>))
         (quiet_world [] 0)
       = (Inr (''(tcp or udp) and ((tcp.DstPort >= 49000 and tcp.DstPort <= 65000) or (ud'' @
          ''p.DstPort >= 49000 and udp.DstPort <= 65000))''),
          (quiet_world [] 0)
            \<lparr>trace := [Open_capture
                        (''(tcp or udp) and ((tcp.DstPort >= 49000 and tcp.DstPort <= 65000) or (ud'' @
          ''p.DstPort >= 49000 and udp.DstPort <= 65000))'')]\<rparr>)"
proof -
  have a: "denied_psutil 812 = Inl AccessDenied" by (simp add: denied_psutil_def)
  have b: "vanished_psutil 812 = Inl NoSuchProcess" by (simp add: vanished_psutil_def)
  have c: "find_process_by_name ascii_lower chrome_procs
             (process_name_substring (config chrome_throttler)) = Inr 812"
    by (simp add: chrome_procs_def chrome_throttler_def scenario_defs time_time_def
          ascii_lower_def ascii_lower_char_def)
  have d: "sorted_list_of_set ({} :: nat set) = []" by simp
  have cfg: "str_int (port_range_start (config chrome_throttler)) = ''49000''"
    "str_int (port_range_end (config chrome_throttler)) = ''65000''"
    by (simp_all add: chrome_throttler_def scenario_defs time_time_def str_int_def str_nat.simps)
  have o: "shd (opens (quiet_world [] 0)) = Opened" "stl (opens (quiet_world [] 0)) = sconst Opened"
    "trace (quiet_world [] 0) = []"
    by (simp_all add: quiet_world_def)
  from port_enumeration_failure_not_fatal
         [where psutil = denied_psutil and pid = 812 and e = AccessDenied
            and str_lower = ascii_lower and procs = chrome_procs and th = chrome_throttler
            and iter_order = sorted_list_of_set and w = "quiet_world [] 0", OF a c d]
    port_enumeration_failure_not_fatal
         [where psutil = vanished_psutil and pid = 812 and e = NoSuchProcess
            and str_lower = ascii_lower and procs = chrome_procs and th = chrome_throttler
            and iter_order = sorted_list_of_set and w = "quiet_world [] 0", OF b c d]
    a b c d
  show ?thesis
    by (simp add: Let_def cfg o) (simp add: quiet_world_def)
qed
end
